theory Spec2Isabelle
  imports Main
begin

unbundle bit_operations_syntax

section \<open>Numbers and their hexadecimal form\<close>

text \<open>
  The library type \<open>BI\<close> is an integer of unbounded size: \<^typ>\<open>int\<close>. Its division
  truncates towards zero. \<open>toHexString\<close> renders \<open>0x\<close> followed by the digits of the
  absolute value in base 16, lower case, without leading zeros, and a leading \<open>-\<close> for a
  negative number. \<open>BI.from\<close> reads a string that is a hexadecimal literal (\<open>0x\<close> and at
  least one digit of either case) or a decimal number (digits, after an optional \<open>-\<close>); it
  is \<open>None\<close> where the library throws.
\<close>

type_synonym hexadecimal = string

definition BI_div :: "int \<Rightarrow> int \<Rightarrow> int" where
  "BI_div a b = (if (a < 0) = (b < 0) then \<bar>a\<bar> div \<bar>b\<bar> else - (\<bar>a\<bar> div \<bar>b\<bar>))"

definition hexDigit :: "nat \<Rightarrow> char" where
  "hexDigit d = ''0123456789abcdef'' ! d"

fun toString16 :: "nat \<Rightarrow> string" where
  "toString16 n = (if n < 16 then [hexDigit n] else toString16 (n div 16) @ [hexDigit (n mod 16)])"

declare toString16.simps [simp del]

definition toHexString :: "int \<Rightarrow> hexadecimal" where
  "toHexString n = (if n < 0 then ''-0x'' @ toString16 (nat (- n)) else ''0x'' @ toString16 (nat n))"

definition digitValue :: "char \<Rightarrow> nat option" where
  "digitValue c =
     (case map_of
             [(CHR ''0'', 0), (CHR ''1'', 1), (CHR ''2'', 2), (CHR ''3'', 3), (CHR ''4'', 4),
              (CHR ''5'', 5), (CHR ''6'', 6), (CHR ''7'', 7), (CHR ''8'', 8), (CHR ''9'', 9),
              (CHR ''a'', 10), (CHR ''b'', 11), (CHR ''c'', 12), (CHR ''d'', 13), (CHR ''e'', 14),
              (CHR ''f'', 15)] c of
        Some d \<Rightarrow> Some d
      | None \<Rightarrow>
          map_of
            [(CHR ''A'', 10), (CHR ''B'', 11), (CHR ''C'', 12), (CHR ''D'', 13), (CHR ''E'', 14),
             (CHR ''F'', 15)] c)"

fun parse16 :: "nat \<Rightarrow> string \<Rightarrow> nat option" where
  "parse16 acc [] = Some acc"
| "parse16 acc (c # cs) =
     (case digitValue c of None \<Rightarrow> None | Some d \<Rightarrow> parse16 (16 * acc + d) cs)"

definition decimalValue :: "char \<Rightarrow> nat option" where
  "decimalValue c =
     map_of
       [(CHR ''0'', 0), (CHR ''1'', 1), (CHR ''2'', 2), (CHR ''3'', 3), (CHR ''4'', 4),
        (CHR ''5'', 5), (CHR ''6'', 6), (CHR ''7'', 7), (CHR ''8'', 8), (CHR ''9'', 9)] c"

fun parse10 :: "nat \<Rightarrow> string \<Rightarrow> nat option" where
  "parse10 acc [] = Some acc"
| "parse10 acc (c # cs) =
     (case decimalValue c of None \<Rightarrow> None | Some d \<Rightarrow> parse10 (10 * acc + d) cs)"

definition BI_from_decimal :: "string \<Rightarrow> int option" where
  "BI_from_decimal s =
     (case s of
        [] \<Rightarrow> None
      | c # cs \<Rightarrow>
          if c = CHR ''-'' then (if cs = [] then None else map_option (\<lambda>n. - int n) (parse10 0 cs))
          else map_option int (parse10 0 s))"

definition BI_from :: "string \<Rightarrow> int option" where
  "BI_from s =
     (case s of
        c0 # c1 # ds \<Rightarrow>
          if c0 = CHR ''0'' \<and> c1 = CHR ''x''
          then (if ds = [] then None else map_option int (parse16 0 ds))
          else BI_from_decimal s
      | _ \<Rightarrow> BI_from_decimal s)"

section \<open>Epoch arithmetic\<close>

record epoch =
  epoch_length :: int
  epoch_index :: int
  epoch_number :: int

text \<open>\<open>parseEpoch\<close> on the integer that \<open>BI.from\<close> made of its argument.\<close>

definition parseEpoch :: "int \<Rightarrow> epoch" where
  "parseEpoch e =
     \<lparr> epoch_length = drop_bit 40 e AND 0xfff,
       epoch_index = drop_bit 24 e AND 0xfff,
       epoch_number = e AND 0xffffff \<rparr>"

text \<open>\<open>parseEpoch\<close> on a hexadecimal string, as it is called on \<open>stringifyEpoch\<close>'s result.\<close>

definition parseEpoch_hex :: "hexadecimal \<Rightarrow> epoch option" where
  "parseEpoch_hex s = map_option parseEpoch (BI_from s)"

definition epochCompare :: "epoch \<Rightarrow> epoch \<Rightarrow> int" where
  "epochCompare e0 e1 =
     (if epoch_number e0 < epoch_number e1 then - 1
      else if epoch_number e0 > epoch_number e1 then 1
      else let v0 = epoch_index e0 * epoch_length e1;
               v1 = epoch_index e1 * epoch_length e0
           in if v0 < v1 then - 1 else if v0 > v1 then 1 else 0)"

definition stringifyEpoch :: "epoch \<Rightarrow> hexadecimal" where
  "stringifyEpoch e =
     toHexString (push_bit 40 (epoch_length e) + push_bit 24 (epoch_index e) + epoch_number e)"

text \<open>
  The epochs of the data model: the three fields within the bit widths that
  \<open>parseEpoch\<close> extracts (24 bits of number, 12 of index, 12 of length).
\<close>

definition epoch_fields_in_range :: "epoch \<Rightarrow> bool" where
  "epoch_fields_in_range e \<longleftrightarrow>
     0 \<le> epoch_number e \<and> epoch_number e < 2 ^ 24 \<and>
     0 \<le> epoch_index e \<and> epoch_index e < 2 ^ 12 \<and>
     0 \<le> epoch_length e \<and> epoch_length e < 2 ^ 12"

section \<open>Fee\<close>

definition calculateFee :: "int \<Rightarrow> int \<Rightarrow> int" where
  "calculateFee sz feeRate =
     (let ratio = 1000;
          base = sz * feeRate;
          fee = BI_div base ratio
      in if fee * ratio < base then fee + 1 else fee)"

text \<open>
  The codec \<open>Uint64LE\<close> and \<open>bytes.hexify\<close> of the library: eight bytes, least
  significant first, written as \<open>0x\<close> and two digits per byte. \<open>unpack\<close> throws unless
  its argument is exactly eight bytes, \<open>pack\<close> unless the number fits 64 bits.
\<close>

fun bytify_digits :: "string \<Rightarrow> nat list option" where
  "bytify_digits [] = Some []"
| "bytify_digits [c] = None"
| "bytify_digits (c1 # c2 # cs) =
     (case digitValue c1 of None \<Rightarrow> None
      | Some h \<Rightarrow>
          (case digitValue c2 of None \<Rightarrow> None
           | Some l \<Rightarrow>
               (case bytify_digits cs of None \<Rightarrow> None
                | Some bs \<Rightarrow> Some ((16 * h + l) # bs))))"

definition bytify :: "string \<Rightarrow> nat list option" where
  "bytify s =
     (case s of
        c0 # c1 # ds \<Rightarrow> if c0 = CHR ''0'' \<and> c1 = CHR ''x'' then bytify_digits ds else None
      | _ \<Rightarrow> None)"

fun littleEndian :: "nat list \<Rightarrow> nat" where
  "littleEndian [] = 0"
| "littleEndian (b # bs) = b + 256 * littleEndian bs"

definition Uint64LE_unpack :: "string \<Rightarrow> int option" where
  "Uint64LE_unpack d =
     (case bytify d of
        None \<Rightarrow> None
      | Some bs \<Rightarrow> if length bs = 8 then Some (int (littleEndian bs)) else None)"

definition Uint64LE_pack :: "nat \<Rightarrow> nat list option" where
  "Uint64LE_pack n =
     (if n < 2 ^ 64 then Some (map (\<lambda>k. (n div 256 ^ k) mod 256) [0, 1, 2, 3, 4, 5, 6, 7]) else None)"

definition hexify :: "nat list \<Rightarrow> string" where
  "hexify bs = ''0x'' @ concat (map (\<lambda>b. [hexDigit (b div 16), hexDigit (b mod 16)]) bs)"

section \<open>Data model\<close>

record script =
  codeHash :: string
  hashType :: string
  args :: string

record outPoint =
  txHash :: string
  index :: string

record cellDep =
  outPoint :: outPoint
  depType :: string

text \<open>The field \<open>type\<close> of a cell output may be absent; \<open>capacity\<close> is a hexadecimal number.\<close>

record cellOutput =
  capacity :: hexadecimal
  lock :: script
  type_script :: "script option"

record cell =
  cellOutput :: cellOutput
  cell_outPoint :: "outPoint option"
  data :: string
  blockHash :: "string option"
  blockNumber :: "hexadecimal option"

record header =
  number :: hexadecimal
  hash :: string
  epoch :: string
  dao :: string

record witnessArgs =
  witness_lock :: string
  inputType :: "string option"

text \<open>
  The transaction skeleton of the library, with the fields the builder touches. Its lists
  keep their order; \<open>inputSinces\<close> is a map from input index to a since value, kept as an
  association list.
\<close>

record transactionSkeleton =
  cellDeps :: "cellDep list"
  headerDeps :: "string list"
  inputs :: "cell list"
  outputs :: "cell list"
  witnesses :: "string list"
  inputSinces :: "(nat \<times> string) list"

definition TransactionSkeleton :: transactionSkeleton where
  "TransactionSkeleton =
     \<lparr> cellDeps = [], headerDeps = [], inputs = [], outputs = [], witnesses = [], inputSinces = [] \<rparr>"

text \<open>
  The errors the code throws, named as the specification names them. \<open>CodecError\<close> stands
  for an exception of a library codec (\<open>Uint64LE\<close>, \<open>BI.from\<close>).
\<close>

datatype error =
    ComparingUndefinedScripts
  | MissingBlockNumber
  | UnresolvedScript
  | HeaderNotFound
  | HeaderDepNotFound
  | NotAWithdrawalCell
  | InsufficientFunds
  | AlreadyPopulated
  | CodecError

text \<open>
  What the code takes from outside this repository's sources, as parameters: the
  configuration (the names that \<open>getConfig()\<close> enumerates, the keys of its \<open>SCRIPTS\<close>,
  \<open>defaultScript\<close> and \<open>defaultCellDeps\<close>, the latter also applied to the result of a
  map lookup that may be undefined), the chain adapter's \<open>getHeaderByNumber\<close> (a header
  or nothing), and the library functions for the DAO amounts, the minimal capacity of a
  cell and the serialisation of a witness (\<open>bytes.hexify(blockchain.WitnessArgs.pack(w))\<close>).
\<close>

record environment =
  configNames :: "string list"
  scriptsNames :: "string list"
  defaultScript :: "string \<Rightarrow> script"
  defaultCellDeps :: "string option \<Rightarrow> cellDep"
  rpc_getHeaderByNumber :: "hexadecimal option \<Rightarrow> header option"
  calculateMaximumWithdrawCompatible :: "cell \<Rightarrow> string \<Rightarrow> string \<Rightarrow> int"
  calculateDaoEarliestSinceCompatible :: "string \<Rightarrow> string \<Rightarrow> int"
  minimalCellCapacityCompatible :: "cell \<Rightarrow> int"
  packWitnessArgs :: "witnessArgs \<Rightarrow> string"

text \<open>
  The builder: the fields of \<open>TransactionBuilder\<close> that the methods below read or write.
  \<open>blockNumber2Header\<close> is keyed by block number; the key may be undefined, since
  \<open>getHeaderByNumber\<close> is called on \<open>c.blockNumber!\<close>.
\<close>

record transactionBuilder =
  accountLock :: script
  blockNumber2Header :: "hexadecimal option \<rightharpoonup> header"
  feeRate :: int
  this_inputs :: "cell list"
  this_outputs :: "cell list"

datatype source = Input | Output

datatype position = Start | End

section \<open>Scripts and cells\<close>

definition scriptEq :: "script option \<Rightarrow> script option \<Rightarrow> error + bool" where
  "scriptEq s0 s1 =
     (case (s0, s1) of
        (None, None) \<Rightarrow> Inl ComparingUndefinedScripts
      | (None, Some b) \<Rightarrow> Inr False
      | (Some a, None) \<Rightarrow> Inr False
      | (Some a, Some b) \<Rightarrow>
          Inr (codeHash a = codeHash b \<and> hashType a = hashType b \<and> args a = args b))"

text \<open>
  Modelled from the spec: \<open>isScript\<close>, imported from \<open>./utils\<close> by the builder, is not
  among the sources. The specification: two scripts are "the same kind" if codeHash and
  hashType match regardless of args.
\<close>

definition isScript :: "script \<Rightarrow> script \<Rightarrow> bool" where
  "isScript s0 s1 \<longleftrightarrow> codeHash s0 = codeHash s1 \<and> hashType s0 = hashType s1"

definition DAO_DEPOSIT_DATA :: string where
  "DAO_DEPOSIT_DATA = ''0x0000000000000000''"

text \<open>
  The second argument of \<open>scriptEq\<close> is defined in both classifiers, so the comparison
  does not throw there and the result is a truth value.
\<close>

definition isDAODeposit :: "environment \<Rightarrow> cell \<Rightarrow> bool" where
  "isDAODeposit env c \<longleftrightarrow>
     scriptEq (type_script (cellOutput c)) (Some (defaultScript env ''DAO'')) = Inr True
     \<and> data c = DAO_DEPOSIT_DATA"

definition isDAOWithdrawal :: "environment \<Rightarrow> cell \<Rightarrow> bool" where
  "isDAOWithdrawal env c \<longleftrightarrow>
     scriptEq (type_script (cellOutput c)) (Some (defaultScript env ''DAO'')) = Inr True
     \<and> data c \<noteq> DAO_DEPOSIT_DATA"

text \<open>\<open>!c.blockNumber\<close>: the block number is undefined or the empty string.\<close>

definition lacksBlockNumber :: "cell \<Rightarrow> bool" where
  "lacksBlockNumber c \<longleftrightarrow> blockNumber c = None \<or> blockNumber c = Some []"

section \<open>The transaction builder\<close>

text \<open>
  \<open>add\<close> mutates the builder before it checks the block numbers, and throws afterwards:
  the result is the error, if any, together with the builder as the call leaves it.
\<close>

definition add :: "source \<Rightarrow> position \<Rightarrow> cell list \<Rightarrow> transactionBuilder \<Rightarrow> error option \<times> transactionBuilder" where
  "add src pos cells b =
     (case src of
        Input \<Rightarrow>
          (let b' = b\<lparr>this_inputs :=
                      (if pos = Start then cells @ this_inputs b else this_inputs b @ cells)\<rparr>
           in if list_ex lacksBlockNumber (this_inputs b') then (Some MissingBlockNumber, b')
              else (None, b'))
      | Output \<Rightarrow>
          (None, b\<lparr>this_outputs :=
                     (if pos = Start then cells @ this_outputs b else this_outputs b @ cells)\<rparr>))"

text \<open>
  \<open>getHeaderByNumber\<close>: the cached header, or the chain adapter's, which is then cached.
  (When the adapter has none, the source stores that absent result under the key before it
  throws; \<open>get\<close> cannot tell such an entry from a missing one.)
\<close>

definition getHeaderByNumber ::
  "environment \<Rightarrow> hexadecimal option \<Rightarrow> transactionBuilder \<Rightarrow> error + (header \<times> transactionBuilder)" where
  "getHeaderByNumber env bn b =
     (case blockNumber2Header b bn of
        Some h \<Rightarrow> Inr (h, b)
      | None \<Rightarrow>
          (case rpc_getHeaderByNumber env bn of
             None \<Rightarrow> Inl HeaderNotFound
           | Some h \<Rightarrow> Inr (h, b\<lparr>blockNumber2Header := (blockNumber2Header b)(bn \<mapsto> h)\<rparr>)))"

text \<open>\<open>getBlockHash\<close>, the callback that \<open>buildWithChange\<close> hands to the resolvers.\<close>

definition getBlockHash ::
  "environment \<Rightarrow> hexadecimal option \<Rightarrow> transactionBuilder \<Rightarrow> error + (string \<times> transactionBuilder)" where
  "getBlockHash env bn b =
     (case getHeaderByNumber env bn b of
        Inl e \<Rightarrow> Inl e
      | Inr (h, b') \<Rightarrow> Inr (hash h, b'))"

text \<open>The loop of \<open>getCkbDelta\<close> over the inputs, then the one over the outputs.\<close>

fun getCkbDelta_inputs ::
  "environment \<Rightarrow> cell list \<Rightarrow> int \<Rightarrow> transactionBuilder \<Rightarrow> error + (int \<times> transactionBuilder)" where
  "getCkbDelta_inputs env [] ckbDelta b = Inr (ckbDelta, b)"
| "getCkbDelta_inputs env (c # cs) ckbDelta b =
     (if isDAODeposit env c then
        (case Uint64LE_unpack (data c) of
           None \<Rightarrow> Inl CodecError
         | Some n \<Rightarrow>
             (case getHeaderByNumber env (Some (toHexString n)) b of
                Inl e \<Rightarrow> Inl e
              | Inr (depositHeader, b1) \<Rightarrow>
                  (case getHeaderByNumber env (blockNumber c) b1 of
                     Inl e \<Rightarrow> Inl e
                   | Inr (withdrawalHeader, b2) \<Rightarrow>
                       getCkbDelta_inputs env cs
                         (ckbDelta + calculateMaximumWithdrawCompatible env c
                            (dao depositHeader) (dao withdrawalHeader)) b2)))
      else
        (case BI_from (capacity (cellOutput c)) of
           None \<Rightarrow> Inl CodecError
         | Some v \<Rightarrow> getCkbDelta_inputs env cs (ckbDelta + v) b))"

fun getCkbDelta_outputs :: "cell list \<Rightarrow> int \<Rightarrow> error + int" where
  "getCkbDelta_outputs [] ckbDelta = Inr ckbDelta"
| "getCkbDelta_outputs (c # cs) ckbDelta =
     (case BI_from (capacity (cellOutput c)) of
        None \<Rightarrow> Inl CodecError
      | Some v \<Rightarrow> getCkbDelta_outputs cs (ckbDelta - v))"

definition getCkbDelta :: "environment \<Rightarrow> transactionBuilder \<Rightarrow> error + (int \<times> transactionBuilder)" where
  "getCkbDelta env b =
     (case getCkbDelta_inputs env (this_inputs b) 0 b of
        Inl e \<Rightarrow> Inl e
      | Inr (ckbDelta, b') \<Rightarrow>
          (case getCkbDelta_outputs (this_outputs b') ckbDelta of
             Inl e \<Rightarrow> Inl e
           | Inr ckbDelta' \<Rightarrow> Inr (ckbDelta', b')))"

definition withdrawedDaoSince ::
  "environment \<Rightarrow> cell \<Rightarrow> transactionBuilder \<Rightarrow> error + (int \<times> transactionBuilder)" where
  "withdrawedDaoSince env c b =
     (if \<not> isDAOWithdrawal env c then Inl NotAWithdrawalCell
      else
        (case getHeaderByNumber env (blockNumber c) b of
           Inl e \<Rightarrow> Inl e
         | Inr (withdrawalHeader, b1) \<Rightarrow>
             (case Uint64LE_unpack (data c) of
                None \<Rightarrow> Inl CodecError
              | Some n \<Rightarrow>
                  (case getHeaderByNumber env (Some (toHexString n)) b1 of
                     Inl e \<Rightarrow> Inl e
                   | Inr (depositHeader, b2) \<Rightarrow>
                       Inr (calculateDaoEarliestSinceCompatible env
                              (epoch depositHeader) (epoch withdrawalHeader), b2)))))"

section \<open>Code dependencies\<close>

text \<open>\<open>s.split(sep)\<close> on a one-character separator: the pieces between its occurrences.\<close>

fun split :: "char \<Rightarrow> string \<Rightarrow> string list" where
  "split sep [] = [[]]"
| "split sep (c # cs) =
     (if c = sep then [] # split sep cs
      else (case split sep cs of [] \<Rightarrow> [[c]] | w # ws \<Rightarrow> (c # w) # ws))"

definition serializeScript :: "script \<Rightarrow> string" where
  "serializeScript s = codeHash s @ ''-'' @ hashType s"

definition serializeCellDep :: "cellDep \<Rightarrow> string" where
  "serializeCellDep d = txHash (outPoint d) @ ''-'' @ index (outPoint d) @ ''-'' @ depType d"

definition prefix2Name :: "environment \<Rightarrow> string \<rightharpoonup> string" where
  "prefix2Name env =
     foldl (\<lambda>m scriptName.
              (case split CHR ''_'' scriptName of [] \<Rightarrow> m | p # ps \<Rightarrow> m(p \<mapsto> scriptName)))
       Map.empty (configNames env)"

definition serializedScript2CellDeps :: "environment \<Rightarrow> string \<rightharpoonup> cellDep list" where
  "serializedScript2CellDeps env =
     foldl (\<lambda>m scriptName.
              m(serializeScript (defaultScript env scriptName) \<mapsto>
                  map (\<lambda>p. defaultCellDeps env (prefix2Name env p)) (split CHR ''_'' scriptName)))
       Map.empty (configNames env)"

text \<open>The scripts that \<open>addCellDeps\<close> collects, in its order.\<close>

definition collectScripts :: "transactionSkeleton \<Rightarrow> script list" where
  "collectScripts transaction =
     map (\<lambda>c. lock (cellOutput c)) (inputs transaction) @
     concat (map (\<lambda>c. case type_script (cellOutput c) of None \<Rightarrow> [] | Some t \<Rightarrow> [t])
               (outputs transaction @ inputs transaction))"

text \<open>
  A \<open>Map\<close> whose order of insertion is observed, as an association list: \<open>set\<close> replaces
  the value of a key already there, where it is, and appends a new key.
\<close>

fun map_set :: "('k \<times> 'v) list \<Rightarrow> 'k \<Rightarrow> 'v \<Rightarrow> ('k \<times> 'v) list" where
  "map_set [] k v = [(k, v)]"
| "map_set ((k', v') # m) k v = (if k' = k then (k, v) # m else (k', v') # map_set m k v)"

fun addCellDeps_scripts ::
  "environment \<Rightarrow> script list \<Rightarrow> (string \<times> cellDep) list \<Rightarrow> error + (string \<times> cellDep) list" where
  "addCellDeps_scripts env [] m = Inr m"
| "addCellDeps_scripts env (s # ss) m =
     (case serializedScript2CellDeps env (serializeScript s) of
        None \<Rightarrow> Inl UnresolvedScript
      | Some ds \<Rightarrow>
          addCellDeps_scripts env ss (foldl (\<lambda>m' d. map_set m' (serializeCellDep d) d) m ds))"

definition addCellDeps :: "environment \<Rightarrow> transactionSkeleton \<Rightarrow> error + transactionSkeleton" where
  "addCellDeps env transaction =
     (if cellDeps transaction \<noteq> [] then Inl AlreadyPopulated
      else
        (case addCellDeps_scripts env (collectScripts transaction) [] of
           Inl e \<Rightarrow> Inl e
         | Inr m \<Rightarrow> Inr (transaction\<lparr>cellDeps := cellDeps transaction @ map snd m\<rparr>)))"

section \<open>Header dependencies, sinces and witnesses\<close>

text \<open>
  The resolvers take an asynchronous callback, awaited in sequence; it may throw and it
  may change the state of its owner, so it is a function of a state \<open>'s\<close> that returns an
  error or its result with the new state.

  \<open>Set.add\<close> keeps the order of first insertion.
\<close>

definition set_add :: "'a list \<Rightarrow> 'a \<Rightarrow> 'a list" where
  "set_add xs x = (if x \<in> set xs then xs else xs @ [x])"

fun addHeaderDeps_inputs ::
  "environment \<Rightarrow> (hexadecimal option \<Rightarrow> 's \<Rightarrow> error + (string \<times> 's)) \<Rightarrow> cell list \<Rightarrow>
     string list \<Rightarrow> 's \<Rightarrow> error + (string list \<times> 's)" where
  "addHeaderDeps_inputs env blockNumber2BlockHash [] uniqueBlockHashes s = Inr (uniqueBlockHashes, s)"
| "addHeaderDeps_inputs env blockNumber2BlockHash (c # cs) uniqueBlockHashes s =
     (if lacksBlockNumber c then Inl MissingBlockNumber
      else if isDAODeposit env c then
        (case blockNumber2BlockHash (blockNumber c) s of
           Inl e \<Rightarrow> Inl e
         | Inr (h, s1) \<Rightarrow>
             addHeaderDeps_inputs env blockNumber2BlockHash cs (set_add uniqueBlockHashes h) s1)
      else if isDAOWithdrawal env c then
        (case blockNumber2BlockHash (blockNumber c) s of
           Inl e \<Rightarrow> Inl e
         | Inr (h, s1) \<Rightarrow>
             (case Uint64LE_unpack (data c) of
                None \<Rightarrow> Inl CodecError
              | Some n \<Rightarrow>
                  (case blockNumber2BlockHash (Some (toHexString n)) s1 of
                     Inl e \<Rightarrow> Inl e
                   | Inr (h', s2) \<Rightarrow>
                       addHeaderDeps_inputs env blockNumber2BlockHash cs
                         (set_add (set_add uniqueBlockHashes h) h') s2)))
      else addHeaderDeps_inputs env blockNumber2BlockHash cs uniqueBlockHashes s)"

definition addHeaderDeps ::
  "environment \<Rightarrow> transactionSkeleton \<Rightarrow> (hexadecimal option \<Rightarrow> 's \<Rightarrow> error + (string \<times> 's)) \<Rightarrow>
     's \<Rightarrow> error + (transactionSkeleton \<times> 's)" where
  "addHeaderDeps env transaction blockNumber2BlockHash s =
     (if headerDeps transaction \<noteq> [] then Inl AlreadyPopulated
      else
        (case addHeaderDeps_inputs env blockNumber2BlockHash (inputs transaction) [] s of
           Inl e \<Rightarrow> Inl e
         | Inr (uniqueBlockHashes, s') \<Rightarrow>
             Inr (transaction\<lparr>headerDeps := headerDeps transaction @ uniqueBlockHashes\<rparr>, s')))"

fun addInputSinces_inputs ::
  "environment \<Rightarrow> (cell \<Rightarrow> 's \<Rightarrow> error + (int \<times> 's)) \<Rightarrow> nat \<Rightarrow> cell list \<Rightarrow>
     (nat \<times> string) list \<Rightarrow> 's \<Rightarrow> error + ((nat \<times> string) list \<times> 's)" where
  "addInputSinces_inputs env sinceOf i [] sinces s = Inr (sinces, s)"
| "addInputSinces_inputs env sinceOf i (c # cs) sinces s =
     (if isDAOWithdrawal env c then
        (case sinceOf c s of
           Inl e \<Rightarrow> Inl e
         | Inr (since, s') \<Rightarrow>
             addInputSinces_inputs env sinceOf (Suc i) cs
               (map_set sinces i (toHexString since)) s')
      else addInputSinces_inputs env sinceOf (Suc i) cs sinces s)"

definition addInputSinces ::
  "environment \<Rightarrow> transactionSkeleton \<Rightarrow> (cell \<Rightarrow> 's \<Rightarrow> error + (int \<times> 's)) \<Rightarrow> 's \<Rightarrow>
     error + (transactionSkeleton \<times> 's)" where
  "addInputSinces env transaction sinceOf s =
     (if inputSinces transaction \<noteq> [] then Inl AlreadyPopulated
      else
        (case addInputSinces_inputs env sinceOf 0 (inputs transaction)
                (inputSinces transaction) s of
           Inl e \<Rightarrow> Inl e
         | Inr (sinces, s') \<Rightarrow> Inr (transaction\<lparr>inputSinces := sinces\<rparr>, s')))"

text \<open>\<open>findIndex\<close>: the first position holding the value, or nothing (the source's \<open>-1\<close>).\<close>

fun findIndex :: "'a list \<Rightarrow> 'a \<Rightarrow> nat option" where
  "findIndex [] v = None"
| "findIndex (x # xs) v = (if x = v then Some 0 else map_option Suc (findIndex xs v))"

definition signaturePlaceholder :: string where
  "signaturePlaceholder = ''0x'' @ concat (replicate 65 ''00'')"

fun addWitnessPlaceholders_inputs ::
  "environment \<Rightarrow> string list \<Rightarrow> script \<Rightarrow> (hexadecimal option \<Rightarrow> 's \<Rightarrow> error + (string \<times> 's)) \<Rightarrow>
     cell list \<Rightarrow> nat \<Rightarrow> string list \<Rightarrow> 's \<Rightarrow> error + (string list \<times> 's)" where
  "addWitnessPlaceholders_inputs env hdeps acctLock blockNumber2BlockHash [] paddingCountDown ws s =
     Inr (ws, s)"
| "addWitnessPlaceholders_inputs env hdeps acctLock blockNumber2BlockHash (c # cs) paddingCountDown ws s =
     (let padded = (paddingCountDown > 0 \<and>
                    scriptEq (Some (lock (cellOutput c))) (Some acctLock) = Inr True);
          lockField = (if padded then signaturePlaceholder else ''0x'');
          paddingCountDown' = (if padded then paddingCountDown - 1 else paddingCountDown)
      in if isDAODeposit env c then
           (case Uint64LE_unpack (data c) of
              None \<Rightarrow> Inl CodecError
            | Some n \<Rightarrow>
                (case blockNumber2BlockHash (Some (toHexString n)) s of
                   Inl e \<Rightarrow> Inl e
                 | Inr (blockHash', s') \<Rightarrow>
                     (case findIndex hdeps blockHash' of
                        None \<Rightarrow> Inl HeaderDepNotFound
                      | Some headerDepIndex \<Rightarrow>
                          (case Uint64LE_pack headerDepIndex of
                             None \<Rightarrow> Inl CodecError
                           | Some bs \<Rightarrow>
                               addWitnessPlaceholders_inputs env hdeps acctLock blockNumber2BlockHash cs
                                 paddingCountDown'
                                 (ws @ [packWitnessArgs env
                                          \<lparr> witness_lock = lockField, inputType = Some (hexify bs) \<rparr>])
                                 s'))))
         else
           addWitnessPlaceholders_inputs env hdeps acctLock blockNumber2BlockHash cs paddingCountDown'
             (ws @ [packWitnessArgs env \<lparr> witness_lock = lockField, inputType = None \<rparr>]) s)"

definition addWitnessPlaceholders ::
  "environment \<Rightarrow> transactionSkeleton \<Rightarrow> script \<Rightarrow>
     (hexadecimal option \<Rightarrow> 's \<Rightarrow> error + (string \<times> 's)) \<Rightarrow> 's \<Rightarrow> error + (transactionSkeleton \<times> 's)" where
  "addWitnessPlaceholders env transaction acctLock blockNumber2BlockHash s =
     (if witnesses transaction \<noteq> [] then Inl AlreadyPopulated
      else
        (let paddingCountDown =
               (if ''PWLOCK'' \<in> set (scriptsNames env) \<and> isScript acctLock (defaultScript env ''PWLOCK'')
                then length (inputs transaction) else 1)
         in case addWitnessPlaceholders_inputs env (headerDeps transaction) acctLock
                   blockNumber2BlockHash (inputs transaction) paddingCountDown
                   (witnesses transaction) s of
              Inl e \<Rightarrow> Inl e
            | Inr (ws, s') \<Rightarrow> Inr (transaction\<lparr>witnesses := ws\<rparr>, s')))"

section \<open>Building with change\<close>

definition changeCell :: "transactionBuilder \<Rightarrow> int \<Rightarrow> cell" where
  "changeCell b ckbDelta =
     \<lparr> cellOutput = \<lparr> capacity = toHexString ckbDelta, lock = accountLock b, type_script = None \<rparr>,
       cell_outPoint = None, data = ''0x'', blockHash = None, blockNumber = None \<rparr>"

definition changeCells :: "environment \<Rightarrow> transactionBuilder \<Rightarrow> int \<Rightarrow> error + cell list" where
  "changeCells env b ckbDelta =
     (if ckbDelta = 0 then Inr []
      else if ckbDelta \<ge> minimalCellCapacityCompatible env (changeCell b ckbDelta)
      then Inr [changeCell b ckbDelta]
      else Inl InsufficientFunds)"

text \<open>What \<open>buildWithChange\<close> does to the skeleton once inputs and outputs are in it.\<close>

definition resolveSkeleton ::
  "environment \<Rightarrow> transactionSkeleton \<Rightarrow> transactionBuilder \<Rightarrow> error + (transactionSkeleton \<times> transactionBuilder)" where
  "resolveSkeleton env transaction b =
     (case addCellDeps env transaction of
        Inl e \<Rightarrow> Inl e
      | Inr t1 \<Rightarrow>
          (case addHeaderDeps env t1 (getBlockHash env) b of
             Inl e \<Rightarrow> Inl e
           | Inr (t2, b2) \<Rightarrow>
               (case addInputSinces env t2 (withdrawedDaoSince env) b2 of
                  Inl e \<Rightarrow> Inl e
                | Inr (t3, b3) \<Rightarrow>
                    addWitnessPlaceholders env t3 (accountLock b3) (getBlockHash env) b3)))"

definition buildWithChange ::
  "environment \<Rightarrow> transactionBuilder \<Rightarrow> int \<Rightarrow> error + (transactionSkeleton \<times> transactionBuilder)" where
  "buildWithChange env b ckbDelta =
     (case changeCells env b ckbDelta of
        Inl e \<Rightarrow> Inl e
      | Inr cs \<Rightarrow>
          resolveSkeleton env
            (TransactionSkeleton
               \<lparr> inputs := inputs TransactionSkeleton @ this_inputs b,
                 outputs := outputs TransactionSkeleton @ this_outputs b @ cs \<rparr>)
            b)"

section \<open>Notions the properties are stated with\<close>

text \<open>
  The header that \<open>getHeaderByNumber\<close> yields for a block number: the cached one, else the
  chain adapter's. Two builders have the same view when they resolve every block number
  alike and agree on the other fields; caching a fetched header keeps the view.
\<close>

definition resolveHeader :: "environment \<Rightarrow> transactionBuilder \<Rightarrow> hexadecimal option \<Rightarrow> header option" where
  "resolveHeader env b bn =
     (case blockNumber2Header b bn of Some h \<Rightarrow> Some h | None \<Rightarrow> rpc_getHeaderByNumber env bn)"

definition sameView :: "environment \<Rightarrow> transactionBuilder \<Rightarrow> transactionBuilder \<Rightarrow> bool" where
  "sameView env b b' \<longleftrightarrow>
     resolveHeader env b' = resolveHeader env b \<and> accountLock b' = accountLock b \<and>
     feeRate b' = feeRate b \<and> this_inputs b' = this_inputs b \<and> this_outputs b' = this_outputs b"

text \<open>
  The hash of the block with a given number, and what an input contributes to the header
  dependencies, in the specification's words: nothing for an ordinary cell, the hash of
  its own block for a deposit, and for a withdrawal that hash and the hash of the block
  whose number its payload encodes.
\<close>

definition blockHashOf :: "environment \<Rightarrow> transactionBuilder \<Rightarrow> hexadecimal option \<Rightarrow> string option" where
  "blockHashOf env b bn = map_option hash (resolveHeader env b bn)"

definition headerContribution :: "environment \<Rightarrow> transactionBuilder \<Rightarrow> cell \<Rightarrow> string list option" where
  "headerContribution env b c =
     (if isDAODeposit env c then
        (case blockHashOf env b (blockNumber c) of None \<Rightarrow> None | Some h \<Rightarrow> Some [h])
      else if isDAOWithdrawal env c then
        (case blockHashOf env b (blockNumber c) of
           None \<Rightarrow> None
         | Some h \<Rightarrow>
             (case Uint64LE_unpack (data c) of
                None \<Rightarrow> None
              | Some n \<Rightarrow>
                  (case blockHashOf env b (Some (toHexString n)) of
                     None \<Rightarrow> None
                   | Some h' \<Rightarrow> Some [h, h'])))
      else Some [])"

text \<open>A list without its repetitions, each element where it occurs first.\<close>

definition firstOccurrences :: "'a list \<Rightarrow> 'a list" where
  "firstOccurrences xs = rev (remdups (rev xs))"

text \<open>
  The lock fields of the witnesses of a list of inputs, given the number of placeholders
  still to hand out.
\<close>

fun lockFields :: "script \<Rightarrow> nat \<Rightarrow> cell list \<Rightarrow> string list" where
  "lockFields a n [] = []"
| "lockFields a n (c # cs) =
     (if n > 0 \<and> lock (cellOutput c) = a then signaturePlaceholder # lockFields a (n - 1) cs
      else ''0x'' # lockFields a n cs)"

text \<open>
  The key \<open>serializeCellDep\<close> joins three fields with \<open>-\<close>. An index and a dependency
  type hold no \<open>-\<close> (the one is a hexadecimal number, the other \<open>code\<close> or \<open>depGroup\<close>);
  then the key determines the dependency.
\<close>

definition wellFormedCellDep :: "cellDep \<Rightarrow> bool" where
  "wellFormedCellDep d \<longleftrightarrow> CHR ''-'' \<notin> set (index (outPoint d)) \<and> CHR ''-'' \<notin> set (depType d)"

section \<open>A sample configuration, sample cells and a sample builder\<close>

definition daoScript :: script where
  "daoScript = \<lparr> codeHash = ''0x82'', hashType = ''type'', args = ''0x'' \<rparr>"

definition pwlockScript :: script where
  "pwlockScript = \<lparr> codeHash = ''0x58'', hashType = ''type'', args = ''0x'' \<rparr>"

definition secpScript :: script where
  "secpScript = \<lparr> codeHash = ''0x9b'', hashType = ''type'', args = ''0x'' \<rparr>"

definition sampleHeader :: "string \<Rightarrow> string \<Rightarrow> header" where
  "sampleHeader n h = \<lparr> number = n, hash = h, epoch = n, dao = h \<rparr>"

definition sampleEnv :: environment where
  "sampleEnv =
     \<lparr> configNames = [''SECP256K1'', ''DAO'', ''PWLOCK''],
       scriptsNames = [''SECP256K1'', ''DAO'', ''PWLOCK''],
       defaultScript =
         (\<lambda>n. if n = ''DAO'' then daoScript else if n = ''PWLOCK'' then pwlockScript else secpScript),
       defaultCellDeps =
         (\<lambda>p. \<lparr> outPoint =
                  \<lparr> txHash = (if p = Some ''DAO'' then ''0xd1''
                               else if p = Some ''PWLOCK'' then ''0xd2'' else ''0xd0''),
                    index = ''0x0'' \<rparr>,
                depType = ''code'' \<rparr>),
       rpc_getHeaderByNumber =
         (\<lambda>bn. if bn = Some ''0x0'' then Some (sampleHeader ''0x0'' ''0xb0'')
               else if bn = Some ''0x5'' then Some (sampleHeader ''0x5'' ''0xb5'')
               else if bn = Some ''0x9'' then Some (sampleHeader ''0x9'' ''0xb9'')
               else None),
       calculateMaximumWithdrawCompatible =
         (\<lambda>c d w. if d = ''0xb0'' \<and> w = ''0xb5'' then 10500 else 10001),
       calculateDaoEarliestSinceCompatible = (\<lambda>d w. 42),
       minimalCellCapacityCompatible = (\<lambda>c. 6100000000),
       packWitnessArgs =
         (\<lambda>w. witness_lock w @ (case inputType w of None \<Rightarrow> [] | Some t \<Rightarrow> ''/'' @ t)) \<rparr>"

definition sampleLock :: script where
  "sampleLock = \<lparr> codeHash = ''0x9b'', hashType = ''type'', args = ''0xaa'' \<rparr>"

definition otherLock :: script where
  "otherLock = \<lparr> codeHash = ''0x9b'', hashType = ''type'', args = ''0xbb'' \<rparr>"

definition sampleCell :: "script \<Rightarrow> script option \<Rightarrow> string \<Rightarrow> hexadecimal option \<Rightarrow> cell" where
  "sampleCell l t d bn =
     \<lparr> cellOutput = \<lparr> capacity = ''0x2710'', lock = l, type_script = t \<rparr>,
       cell_outPoint = None, data = d, blockHash = None, blockNumber = bn \<rparr>"

definition depositCell :: cell where
  "depositCell = sampleCell sampleLock (Some daoScript) DAO_DEPOSIT_DATA (Some ''0x5'')"

definition withdrawalCell :: cell where
  "withdrawalCell = sampleCell sampleLock (Some daoScript) ''0x0500000000000000'' (Some ''0x9'')"

definition plainCell :: cell where
  "plainCell = sampleCell sampleLock None ''0x'' (Some ''0x9'')"

definition unplacedCell :: cell where
  "unplacedCell = sampleCell sampleLock None ''0x'' None"

definition sampleBuilder :: "script \<Rightarrow> cell list \<Rightarrow> cell list \<Rightarrow> transactionBuilder" where
  "sampleBuilder a ins outs =
     \<lparr> accountLock = a, blockNumber2Header = Map.empty, feeRate = 1000,
       this_inputs = ins, this_outputs = outs \<rparr>"

definition pwlockAccount :: script where
  "pwlockAccount = \<lparr> codeHash = ''0x58'', hashType = ''type'', args = ''0xcc'' \<rparr>"

definition foreignLock :: script where
  "foreignLock = \<lparr> codeHash = ''0x77'', hashType = ''data'', args = ''0x'' \<rparr>"

definition sharedLockSkeleton :: transactionSkeleton where
  "sharedLockSkeleton =
     TransactionSkeleton
       \<lparr> inputs := [plainCell, sampleCell sampleLock None ''0x01'' (Some ''0x5''), depositCell],
         outputs := [plainCell] \<rparr>"

definition reorderedSkeleton :: transactionSkeleton where
  "reorderedSkeleton =
     TransactionSkeleton
       \<lparr> inputs := [depositCell, sampleCell sampleLock None ''0x01'' (Some ''0x5''), plainCell],
         outputs := [plainCell] \<rparr>"

definition secpDep :: cellDep where
  "secpDep = \<lparr> outPoint = \<lparr> txHash = ''0xd0'', index = ''0x0'' \<rparr>, depType = ''code'' \<rparr>"

definition daoDep :: cellDep where
  "daoDep = \<lparr> outPoint = \<lparr> txHash = ''0xd1'', index = ''0x0'' \<rparr>, depType = ''code'' \<rparr>"

definition multisigSkeleton :: transactionSkeleton where
  "multisigSkeleton =
     TransactionSkeleton
       \<lparr> inputs := [sampleCell foreignLock None ''0x'' (Some ''0x5''),
                    sampleCell pwlockAccount None ''0x'' (Some ''0x5''),
                    sampleCell pwlockAccount None ''0x'' (Some ''0x9'')] \<rparr>"

definition singleSigSkeleton :: transactionSkeleton where
  "singleSigSkeleton =
     TransactionSkeleton
       \<lparr> inputs := [sampleCell sampleLock None ''0x'' (Some ''0x5''),
                    sampleCell sampleLock None ''0x'' (Some ''0x9'')] \<rparr>"

section \<open>Auxiliary facts\<close>

lemma digitValue_hexDigit: "d < 16 \<Longrightarrow> digitValue (hexDigit d) = Some d"
proof -
  assume "d < 16"
  then have "d = 0 \<or> d = 1 \<or> d = 2 \<or> d = 3 \<or> d = 4 \<or> d = 5 \<or> d = 6 \<or> d = 7 \<or> d = 8
      \<or> d = 9 \<or> d = 10 \<or> d = 11 \<or> d = 12 \<or> d = 13 \<or> d = 14 \<or> d = 15" by arith
  then show ?thesis
    by (elim disjE) (simp_all add: hexDigit_def digitValue_def)
qed

lemma parse16_append: "parse16 acc (xs @ ys) = (case parse16 acc xs of None \<Rightarrow> None | Some a \<Rightarrow> parse16 a ys)"
  by (induction xs arbitrary: acc) (auto split: option.splits)

lemma parse16_toString16: "parse16 0 (toString16 n) = Some n"
proof (induction n rule: toString16.induct)
  case (1 n)
  show ?case
  proof (cases "n < 16")
    case True
    then show ?thesis by (subst toString16.simps) (simp add: digitValue_hexDigit)
  next
    case False
    then have "parse16 0 (toString16 (n div 16)) = Some (n div 16)" using 1 by simp
    then show ?thesis using False
      by (subst toString16.simps) (simp add: parse16_append digitValue_hexDigit)
  qed
qed

lemma toString16_nonempty: "toString16 n \<noteq> []"
  by (subst toString16.simps) simp

lemma BI_from_toHexString: "0 \<le> n \<Longrightarrow> BI_from (toHexString n) = Some n"
  by (simp add: BI_from_def toHexString_def parse16_toString16 toString16_nonempty)

lemma and_fff: "(x::int) AND 0xfff = x mod 2 ^ 12"
proof -
  have "(0xfff::int) = mask 12" by (simp add: mask_eq_exp_minus_1)
  then show ?thesis by (simp only: flip: take_bit_eq_mask) (simp add: take_bit_eq_mod)
qed

lemma and_ffffff: "(x::int) AND 0xffffff = x mod 2 ^ 24"
proof -
  have "(0xffffff::int) = mask 24" by (simp add: mask_eq_exp_minus_1)
  then show ?thesis by (simp only: flip: take_bit_eq_mask) (simp add: take_bit_eq_mod)
qed

lemma parseEpoch_alt:
  "parseEpoch e = \<lparr> epoch_length = (e div 2 ^ 40) mod 2 ^ 12, epoch_index = (e div 2 ^ 24) mod 2 ^ 12, epoch_number = e mod 2 ^ 24 \<rparr>"
  unfolding parseEpoch_def and_fff and_ffffff drop_bit_eq_div ..

lemma mod_shift: "0 \<le> n \<Longrightarrow> n < m \<Longrightarrow> (k * m + n) mod m = (n::int)"
  by simp

lemma div_shift: "0 \<le> n \<Longrightarrow> n < m \<Longrightarrow> (k * m + n) div m = (k::int)"
  by simp

lemma parseEpoch_pack:
  assumes "epoch_fields_in_range e"
  shows "parseEpoch (push_bit 40 (epoch_length e) + push_bit 24 (epoch_index e) + epoch_number e) = e"
proof -
  obtain l i n where e: "e = \<lparr> epoch_length = l, epoch_index = i, epoch_number = n \<rparr>"
    by (cases e) auto
  from assms e have r: "0 \<le> n" "n < 2 ^ 24" "0 \<le> i" "i < 2 ^ 12" "0 \<le> l" "l < 2 ^ 12"
    by (simp_all add: epoch_fields_in_range_def)
  have p: "push_bit 40 l + push_bit 24 i + n = (l * 2 ^ 16 + i) * 2 ^ 24 + n"
    by (simp add: push_bit_eq_mult algebra_simps)
  have n: "((l * 2 ^ 16 + i) * 2 ^ 24 + n) mod 2 ^ 24 = n"
    by (rule mod_shift [OF r(1) r(2)])
  have d24: "((l * 2 ^ 16 + i) * 2 ^ 24 + n) div 2 ^ 24 = l * 2 ^ 16 + i"
    by (rule div_shift [OF r(1) r(2)])
  have q: "push_bit 40 l + push_bit 24 i + n = l * 2 ^ 40 + (i * 2 ^ 24 + n)"
    by (simp add: push_bit_eq_mult)
  have b: "0 \<le> i * 2 ^ 24 + n" "i * 2 ^ 24 + n < 2 ^ 40"
    using r by simp_all
  have d40: "(l * 2 ^ 40 + (i * 2 ^ 24 + n)) div 2 ^ 40 = l"
    by (rule div_shift [OF b])
  have s: "l * 2 ^ 16 + i = (l * 2 ^ 4) * 2 ^ 12 + i" by simp
  have i12: "(l * 2 ^ 16 + i) mod 2 ^ 12 = i"
    unfolding s by (rule mod_shift [OF r(3) r(4)])
  have l12: "l mod 2 ^ 12 = l" using r by simp
  have L: "(push_bit 40 l + push_bit 24 i + n) div 2 ^ 40 mod 2 ^ 12 = l"
    unfolding q d40 l12 ..
  have I: "(push_bit 40 l + push_bit 24 i + n) div 2 ^ 24 mod 2 ^ 12 = i"
    unfolding p d24 i12 ..
  have N: "(push_bit 40 l + push_bit 24 i + n) mod 2 ^ 24 = n"
    unfolding p n ..
  show ?thesis
    unfolding parseEpoch_alt e by (simp only: epoch.simps L I N)
qed

lemma parseEpoch_in_range: "epoch_fields_in_range (parseEpoch x)"
  unfolding parseEpoch_alt by (simp add: epoch_fields_in_range_def)

lemma epochCompare_antisym: "epochCompare a b = - epochCompare b a"
  by (simp add: epochCompare_def Let_def)

lemma epochCompare_refl: "epochCompare a a = 0"
  by (simp add: epochCompare_def)

lemma cross_trans:
  fixes ai al bi bl ci cl :: int
  assumes "0 \<le> al" "0 < bl" "0 \<le> cl" "ai * bl \<le> bi * al" "bi * cl \<le> ci * bl"
  shows "ai * cl \<le> ci * al"
proof -
  have "(ai * bl) * cl \<le> (bi * al) * cl" using assms by (intro mult_right_mono) auto
  moreover have "(bi * cl) * al \<le> (ci * bl) * al" using assms by (intro mult_right_mono) auto
  ultimately have "bl * (ai * cl) \<le> bl * (ci * al)" by (simp add: algebra_simps)
  then show ?thesis using assms(2) by simp
qed

lemma epochCompare_le_iff:
  "epochCompare a b \<le> 0 \<longleftrightarrow> epoch_number a < epoch_number b \<or>
     (epoch_number a = epoch_number b \<and> epoch_index a * epoch_length b \<le> epoch_index b * epoch_length a)"
  by (auto simp: epochCompare_def Let_def)

lemma epochCompare_trans:
  assumes "epoch_fields_in_range a" "epoch_fields_in_range b" "epoch_fields_in_range c"
    and "epoch_length b \<noteq> 0"
    and "epochCompare a b \<le> 0" "epochCompare b c \<le> 0"
  shows "epochCompare a c \<le> 0"
proof -
  have r: "0 \<le> epoch_length a" "0 < epoch_length b" "0 \<le> epoch_length c"
    using assms(1-4) by (auto simp: epoch_fields_in_range_def)
  show ?thesis
    using assms(5,6) cross_trans [OF r] unfolding epochCompare_le_iff by auto
qed

lemma BI_div_1000: "BI_div b 1000 = (if 0 \<le> b then b div 1000 else - ((- b) div 1000))"
  by (simp add: BI_div_def)

lemma neg_div_1000: "- ((- b) div 1000) = b div 1000 + (if b mod 1000 = 0 then 0 else (1::int))"
  by (simp add: zdiv_zminus1_eq_if)

lemma div_mult_less_iff: "(b div 1000) * 1000 < b \<longleftrightarrow> b mod 1000 \<noteq> (0::int)"
proof -
  have "b = b div 1000 * 1000 + b mod 1000" by simp
  moreover have "0 \<le> b mod 1000" by simp
  ultimately show ?thesis by linarith
qed

lemma calculateFee_ceil: "calculateFee s r = - ((- (s * r)) div 1000)"
proof -
  define b where "b = s * r"
  have "(let fee = BI_div b 1000 in if fee * 1000 < b then fee + 1 else fee) = - ((- b) div 1000)"
  proof (cases "0 \<le> b")
    case True
    then show ?thesis unfolding BI_div_1000 Let_def neg_div_1000 using div_mult_less_iff [of b] by simp
  next
    case False
    have "(- b) div 1000 * 1000 \<le> - b" by simp
    then have "\<not> (- ((- b) div 1000) * 1000 < b)" by linarith
    then show ?thesis unfolding BI_div_1000 Let_def using False by simp
  qed
  then show ?thesis by (simp add: calculateFee_def b_def Let_def)
qed

lemma calculateFee_explicit:
  "calculateFee s r = (s * r) div 1000 + (if (s * r) mod 1000 = 0 then 0 else 1)"
  unfolding calculateFee_ceil by (rule neg_div_1000)

lemma calculateFee_covers: "s * r \<le> calculateFee s r * 1000"
proof -
  have "(- (s * r)) div 1000 * 1000 \<le> - (s * r)" by simp
  then show ?thesis unfolding calculateFee_ceil by linarith
qed

lemma calculateFee_mono:
  assumes "0 \<le> s" "s \<le> s'" "0 \<le> r" "r \<le> r'"
  shows "calculateFee s r \<le> calculateFee s' r'"
proof -
  have "s * r \<le> s' * r'" using assms by (intro mult_mono) auto
  then have "(- (s' * r')) div 1000 \<le> (- (s * r)) div 1000"
    by (intro zdiv_mono1) auto
  then show ?thesis unfolding calculateFee_ceil by simp
qed

lemma calculateFee_zero: "calculateFee 0 r = 0"
  unfolding calculateFee_ceil by simp

lemmas model_defs = scriptEq_def isScript_def DAO_DEPOSIT_DATA_def isDAODeposit_def isDAOWithdrawal_def
  lacksBlockNumber_def add_def getHeaderByNumber_def getBlockHash_def getCkbDelta_def
  withdrawedDaoSince_def serializeScript_def serializeCellDep_def prefix2Name_def
  serializedScript2CellDeps_def collectScripts_def addCellDeps_def set_add_def addHeaderDeps_def
  addInputSinces_def signaturePlaceholder_def addWitnessPlaceholders_def changeCell_def changeCells_def
  resolveSkeleton_def buildWithChange_def TransactionSkeleton_def
  toString16.simps toHexString_def BI_from_def BI_from_decimal_def decimalValue_def digitValue_def hexDigit_def bytify_def Uint64LE_unpack_def
  Uint64LE_pack_def hexify_def Let_def

lemmas sample_defs = daoScript_def pwlockScript_def secpScript_def sampleHeader_def sampleEnv_def
  sampleLock_def otherLock_def sampleCell_def depositCell_def withdrawalCell_def plainCell_def
  unplacedCell_def sampleBuilder_def

lemma sameView_refl: "sameView env b b"
  by (simp add: sameView_def)

lemma sameView_trans: "sameView env b b1 \<Longrightarrow> sameView env b1 b2 \<Longrightarrow> sameView env b b2"
  by (simp add: sameView_def)

lemma getHeaderByNumber_None:
  "resolveHeader env b bn = None \<Longrightarrow> getHeaderByNumber env bn b = Inl HeaderNotFound"
  by (simp add: resolveHeader_def getHeaderByNumber_def split: option.splits)

lemma getHeaderByNumber_Some:
  assumes "resolveHeader env b bn = Some h"
  shows "\<exists>b'. getHeaderByNumber env bn b = Inr (h, b') \<and> sameView env b b'"
proof (cases "blockNumber2Header b bn")
  case None
  with assms have r: "rpc_getHeaderByNumber env bn = Some h" by (simp add: resolveHeader_def)
  let ?b = "b\<lparr>blockNumber2Header := (blockNumber2Header b)(bn \<mapsto> h)\<rparr>"
  have "resolveHeader env ?b = resolveHeader env b"
    using None r by (auto simp: resolveHeader_def fun_eq_iff)
  then have "sameView env b ?b" by (simp add: sameView_def)
  moreover have "getHeaderByNumber env bn b = Inr (h, ?b)"
    using None r by (simp add: getHeaderByNumber_def)
  ultimately show ?thesis by blast
next
  case (Some h')
  with assms show ?thesis
    by (auto simp: resolveHeader_def getHeaderByNumber_def sameView_refl)
qed

lemma getHeaderByNumber_Inr:
  "getHeaderByNumber env bn b = Inr (h, b') \<Longrightarrow> resolveHeader env b bn = Some h \<and> sameView env b b'"
  using getHeaderByNumber_Some [of env b bn] getHeaderByNumber_None [of env b bn]
  by (cases "resolveHeader env b bn") auto

lemma getBlockHash_Some:
  assumes "blockHashOf env b bn = Some h"
  shows "\<exists>b'. getBlockHash env bn b = Inr (h, b') \<and> sameView env b b'"
proof -
  from assms obtain hd where hd: "resolveHeader env b bn = Some hd" "hash hd = h"
    by (auto simp: blockHashOf_def)
  from getHeaderByNumber_Some [OF hd(1)] obtain b'
    where "getHeaderByNumber env bn b = Inr (hd, b')" "sameView env b b'" by blast
  then show ?thesis using hd(2) by (auto simp: getBlockHash_def)
qed

lemma getBlockHash_None:
  "blockHashOf env b bn = None \<Longrightarrow> getBlockHash env bn b = Inl HeaderNotFound"
  by (simp add: blockHashOf_def getBlockHash_def getHeaderByNumber_None)

lemma getBlockHash_Inr:
  "getBlockHash env bn b = Inr (h, b') \<Longrightarrow> blockHashOf env b bn = Some h \<and> sameView env b b'"
  using getBlockHash_Some [of env b bn] getBlockHash_None [of env b bn]
  by (cases "blockHashOf env b bn") auto

lemma blockHashOf_sameView: "sameView env b b' \<Longrightarrow> blockHashOf env b' = blockHashOf env b"
  by (simp add: blockHashOf_def sameView_def fun_eq_iff)

lemma headerContribution_sameView:
  "sameView env b b' \<Longrightarrow> headerContribution env b' c = headerContribution env b c"
  by (simp add: headerContribution_def blockHashOf_sameView cong: option.case_cong)

lemma remdups_drop_later: "x \<in> set zs \<Longrightarrow> remdups (ys @ x # zs) = remdups (ys @ zs)"
  by (induction ys) auto

lemma foldl_set_add:
  "distinct acc \<Longrightarrow> foldl set_add acc xs = firstOccurrences (acc @ xs)"
proof (induction xs arbitrary: acc)
  case Nil
  then show ?case by (simp add: firstOccurrences_def distinct_remdups_id)
next
  case (Cons x xs)
  show ?case
  proof (cases "x \<in> set acc")
    case True
    then have "remdups (rev xs @ x # rev acc) = remdups (rev xs @ rev acc)"
      by (intro remdups_drop_later) simp
    then show ?thesis using True Cons by (simp add: set_add_def firstOccurrences_def)
  next
    case False
    then have "distinct (acc @ [x])" using Cons.prems by simp
    from Cons.IH [OF this] show ?thesis using False by (simp add: set_add_def)
  qed
qed

lemma firstOccurrences_distinct: "distinct (firstOccurrences xs)"
  by (simp add: firstOccurrences_def)

lemma firstOccurrences_set: "set (firstOccurrences xs) = set xs"
  by (simp add: firstOccurrences_def)

lemma those_Cons_Some:
  "those (x # xs) = Some ys \<longleftrightarrow> (\<exists>y ys'. x = Some y \<and> those xs = Some ys' \<and> ys = y # ys')"
  by (auto split: option.splits)

lemma addHeaderDeps_inputs_ok:
  "\<not> list_ex lacksBlockNumber cs \<Longrightarrow> those (map (headerContribution env b) cs) = Some hss \<Longrightarrow>
   \<exists>b'. addHeaderDeps_inputs env (getBlockHash env) cs acc b = Inr (foldl set_add acc (concat hss), b')
        \<and> sameView env b b'"
proof (induction cs arbitrary: acc b hss)
  case Nil
  then show ?case by (auto simp: sameView_refl)
next
  case (Cons c cs)
  from Cons.prems(2) obtain hs hss' where hs: "headerContribution env b c = Some hs"
    and rest: "those (map (headerContribution env b) cs) = Some hss'" and hss: "hss = hs # hss'"
    by (auto split: option.splits)
  from Cons.prems(1) have nl: "\<not> lacksBlockNumber c" "\<not> list_ex lacksBlockNumber cs" by simp_all
  have step: "\<exists>b'. addHeaderDeps_inputs env (getBlockHash env) cs acc' b1 =
                 Inr (foldl set_add acc' (concat hss'), b') \<and> sameView env b b'"
    if "sameView env b b1" for b1 acc'
  proof -
    have "those (map (headerContribution env b1) cs) = Some hss'"
      using rest that by (simp add: headerContribution_sameView cong: map_cong)
    from Cons.IH [OF nl(2) this] obtain b' where
      "addHeaderDeps_inputs env (getBlockHash env) cs acc' b1 = Inr (foldl set_add acc' (concat hss'), b')"
      "sameView env b1 b'" by blast
    then show ?thesis using that by (blast intro: sameView_trans)
  qed
  consider (dep) "isDAODeposit env c" | (wd) "\<not> isDAODeposit env c" "isDAOWithdrawal env c"
    | (plain) "\<not> isDAODeposit env c" "\<not> isDAOWithdrawal env c" by blast
  then show ?case
  proof cases
    case dep
    with hs obtain h where h: "blockHashOf env b (blockNumber c) = Some h" "hs = [h]"
      by (auto simp: headerContribution_def split: option.splits)
    from getBlockHash_Some [OF h(1)] obtain b1
      where b1: "getBlockHash env (blockNumber c) b = Inr (h, b1)" "sameView env b b1" by blast
    from step [OF b1(2), of "set_add acc h"] show ?thesis
      using dep nl(1) b1(1) h(2) hss by simp
  next
    case wd
    with hs obtain h n h' where h: "blockHashOf env b (blockNumber c) = Some h"
      and n: "Uint64LE_unpack (data c) = Some n"
      and h': "blockHashOf env b (Some (toHexString n)) = Some h'" and hsv: "hs = [h, h']"
      by (auto simp: headerContribution_def split: option.splits)
    from getBlockHash_Some [OF h] obtain b1
      where b1: "getBlockHash env (blockNumber c) b = Inr (h, b1)" "sameView env b b1" by blast
    from h' b1(2) have "blockHashOf env b1 (Some (toHexString n)) = Some h'"
      by (simp add: blockHashOf_sameView)
    from getBlockHash_Some [OF this] obtain b2
      where b2: "getBlockHash env (Some (toHexString n)) b1 = Inr (h', b2)" "sameView env b1 b2" by blast
    have "sameView env b b2" using b1(2) b2(2) by (rule sameView_trans)
    from step [OF this, of "set_add (set_add acc h) h'"] show ?thesis
      using wd nl(1) b1(1) b2(1) n hsv hss by simp
  next
    case plain
    with hs have "hs = []" by (simp add: headerContribution_def)
    with step [OF sameView_refl, of acc] show ?thesis
      using plain nl(1) hss by simp
  qed
qed

lemma addHeaderDeps_inputs_append:
  "addHeaderDeps_inputs env cb (xs @ ys) acc s =
     (case addHeaderDeps_inputs env cb xs acc s of
        Inl e \<Rightarrow> Inl e
      | Inr (acc', s') \<Rightarrow> addHeaderDeps_inputs env cb ys acc' s')"
  by (induction xs arbitrary: acc s) (auto split: sum.splits option.splits)

lemma addHeaderDeps_inputs_lacking:
  "list_ex lacksBlockNumber cs \<Longrightarrow> \<exists>e. addHeaderDeps_inputs env cb cs acc s = Inl e"
  by (induction cs arbitrary: acc s) (auto split: sum.splits option.splits)

lemma scriptEq_Some: "scriptEq (Some x) (Some y) = Inr (x = y)"
  by (cases x; cases y) (simp add: scriptEq_def)

lemma scriptEq_defined: "scriptEq s (Some y) = Inr (s = Some y)"
  by (cases s) (simp_all add: scriptEq_Some, simp add: scriptEq_def)

lemma length_lockFields: "length (lockFields a n cs) = length cs"
  by (induction cs arbitrary: n) auto

lemma lockFields_nth:
  "i < length cs \<Longrightarrow>
   lockFields a n cs ! i =
     (if lock (cellOutput (cs ! i)) = a \<and> length (filter (\<lambda>c. lock (cellOutput c) = a) (take i cs)) < n
      then signaturePlaceholder else ''0x'')"
proof (induction cs arbitrary: n i)
  case Nil
  then show ?case by simp
next
  case (Cons c cs)
  show ?case
  proof (cases i)
    case 0
    then show ?thesis by simp
  next
    case (Suc j)
    with Cons.prems have j: "j < length cs" by simp
    show ?thesis using Suc Cons.IH [OF j] by auto
  qed
qed

lemma addWitnessPlaceholders_inputs_shape:
  "addWitnessPlaceholders_inputs env hds a cb cs n ws s = Inr (ws', s') \<Longrightarrow>
   \<exists>its. length its = length cs \<and>
      ws' = ws @ map (\<lambda>(l, it). packWitnessArgs env \<lparr> witness_lock = l, inputType = it \<rparr>)
                   (zip (lockFields a n cs) its)"
proof (induction cs arbitrary: n ws s)
  case Nil
  then show ?case by simp
next
  case (Cons c cs)
  let ?padded = "n > 0 \<and> lock (cellOutput c) = a"
  let ?l = "if ?padded then signaturePlaceholder else ''0x''"
  let ?n = "if ?padded then n - 1 else n"
  from Cons.prems obtain it s1 where
    rec: "addWitnessPlaceholders_inputs env hds a cb cs ?n
            (ws @ [packWitnessArgs env \<lparr> witness_lock = ?l, inputType = it \<rparr>]) s1 = Inr (ws', s')"
    by (auto simp: Let_def scriptEq_Some split: if_splits option.splits sum.splits)
  from Cons.IH [OF rec] obtain its where its: "length its = length cs"
    "ws' = (ws @ [packWitnessArgs env \<lparr> witness_lock = ?l, inputType = it \<rparr>]) @
            map (\<lambda>(l, it). packWitnessArgs env \<lparr> witness_lock = l, inputType = it \<rparr>)
              (zip (lockFields a ?n cs) its)"
    by blast
  show ?case
    by (rule exI [of _ "it # its"]) (use its in auto)
qed

lemma count_lt_one: "i \<le> length cs \<Longrightarrow> length (filter P (take i cs)) < 1 \<longleftrightarrow> (\<forall>j<i. \<not> P (cs ! j))"
proof -
  assume i: "i \<le> length cs"
  have "length (filter P (take i cs)) < 1 \<longleftrightarrow> filter P (take i cs) = []" by auto
  also have "\<dots> \<longleftrightarrow> (\<forall>x \<in> set (take i cs). \<not> P x)" by (simp add: filter_empty_conv)
  also have "\<dots> \<longleftrightarrow> (\<forall>j<i. \<not> P (cs ! j))"
  proof
    assume a: "\<forall>x \<in> set (take i cs). \<not> P x"
    show "\<forall>j<i. \<not> P (cs ! j)"
    proof (intro allI impI)
      fix j assume "j < i"
      then have "take i cs ! j = cs ! j" "j < length (take i cs)" using i by simp_all
      then have "cs ! j \<in> set (take i cs)" by (metis nth_mem)
      with a show "\<not> P (cs ! j)" by blast
    qed
  next
    assume "\<forall>j<i. \<not> P (cs ! j)"
    then show "\<forall>x \<in> set (take i cs). \<not> P x"
      using i by (auto simp: in_set_conv_nth)
  qed
  finally show ?thesis .
qed

lemma count_lt_length: "i < length cs \<Longrightarrow> length (filter P (take i cs)) < length cs"
proof -
  assume "i < length cs"
  have "length (filter P (take i cs)) \<le> length (take i cs)" by (rule length_filter_le)
  then show ?thesis using \<open>i < length cs\<close> by simp
qed

lemma rev_dash_split:
  "CHR ''-'' \<notin> set p \<Longrightarrow> CHR ''-'' \<notin> set p' \<Longrightarrow> p @ CHR ''-'' # r = p' @ CHR ''-'' # r' \<Longrightarrow>
   p = p' \<and> r = r'"
proof (induction p arbitrary: p')
  case Nil
  then show ?case by (cases p') auto
next
  case (Cons c p)
  then show ?case by (cases p') auto
qed

lemma dash_split_last:
  assumes "CHR ''-'' \<notin> set t" "CHR ''-'' \<notin> set t'" "x @ CHR ''-'' # t = x' @ CHR ''-'' # t'"
  shows "x = x' \<and> t = t'"
proof -
  from assms(3) have "rev (x @ CHR ''-'' # t) = rev (x' @ CHR ''-'' # t')" by simp
  then have "rev t @ CHR ''-'' # rev x = rev t' @ CHR ''-'' # rev x'" by simp
  from rev_dash_split [OF _ _ this] assms(1,2) show ?thesis by simp
qed

lemma serializeCellDep_inj:
  assumes "wellFormedCellDep d" "wellFormedCellDep d'" "serializeCellDep d = serializeCellDep d'"
  shows "d = d'"
proof -
  let ?x = "txHash (outPoint d) @ CHR ''-'' # index (outPoint d)"
  let ?x' = "txHash (outPoint d') @ CHR ''-'' # index (outPoint d')"
  from assms(3) have e: "?x @ CHR ''-'' # depType d = ?x' @ CHR ''-'' # depType d'"
    by (simp add: serializeCellDep_def)
  from assms(1,2) have t: "CHR ''-'' \<notin> set (depType d)" "CHR ''-'' \<notin> set (depType d')"
    and i: "CHR ''-'' \<notin> set (index (outPoint d))" "CHR ''-'' \<notin> set (index (outPoint d'))"
    by (simp_all add: wellFormedCellDep_def)
  from dash_split_last [OF t e] have x: "?x = ?x'" and dt: "depType d = depType d'" by simp_all
  from dash_split_last [OF i x] have "txHash (outPoint d) = txHash (outPoint d')"
    "index (outPoint d) = index (outPoint d')" by simp_all
  then have "outPoint d = outPoint d'" by (cases "outPoint d"; cases "outPoint d'") simp
  with dt show ?thesis by (cases d; cases d') simp
qed

lemma set_add_Cons: "set_add (x # xs) k = (if x = k then x # xs else x # set_add xs k)"
  by (simp add: set_add_def)

lemma map_fst_map_set: "map fst (map_set m k v) = set_add (map fst m) k"
proof (induction m)
  case Nil
  then show ?case by (simp add: set_add_def)
next
  case (Cons p m)
  then show ?case by (cases p) (simp add: set_add_Cons)
qed

lemma map_set_tagged:
  "inj_on f (insert d (set ds)) \<Longrightarrow>
   map_set (map (\<lambda>x. (f x, x)) ds) (f d) d = map (\<lambda>x. (f x, x)) (set_add ds d)"
proof (induction ds)
  case Nil
  then show ?case by (simp add: set_add_def)
next
  case (Cons x ds)
  from Cons.prems have inj: "inj_on f (insert d (set ds))"
    by (rule inj_on_subset) auto
  from Cons.prems have eq: "f x = f d \<longleftrightarrow> x = d" by (auto simp: inj_on_def)
  show ?case
  proof (cases "x = d")
    case True
    then show ?thesis by (simp add: set_add_def)
  next
    case False
    with Cons.IH [OF inj] eq show ?thesis by (auto simp: set_add_def split: if_splits)
  qed
qed

lemma set_foldl_set_add: "set (foldl set_add acc xs) = set acc \<union> set xs"
  by (induction xs arbitrary: acc) (auto simp: set_add_def)

lemma foldl_map_set_tagged:
  "inj_on f (set ds \<union> set xs) \<Longrightarrow>
   foldl (\<lambda>m d. map_set m (f d) d) (map (\<lambda>x. (f x, x)) ds) xs = map (\<lambda>x. (f x, x)) (foldl set_add ds xs)"
proof (induction xs arbitrary: ds)
  case Nil
  then show ?case by simp
next
  case (Cons x xs)
  have i1: "inj_on f (insert x (set ds))" using Cons.prems by (rule inj_on_subset) auto
  have "set (set_add ds x) \<union> set xs \<subseteq> set ds \<union> set (x # xs)" by (auto simp: set_add_def)
  with Cons.prems have i2: "inj_on f (set (set_add ds x) \<union> set xs)" by (rule inj_on_subset)
  show ?case using Cons.IH [OF i2] map_set_tagged [OF i1] by simp
qed

lemma map_fst_foldl_map_set:
  "map fst (foldl (\<lambda>m d. map_set m (f d) d) m xs) = foldl set_add (map fst m) (map f xs)"
  by (induction xs arbitrary: m) (simp_all add: map_fst_map_set)

lemma addCellDeps_scripts_unresolved:
  "\<exists>s \<in> set ss. serializedScript2CellDeps env (serializeScript s) = None \<Longrightarrow>
   addCellDeps_scripts env ss m = Inl UnresolvedScript"
  by (induction ss arbitrary: m) (auto split: option.splits)

lemma addCellDeps_scripts_keys:
  "those (map (\<lambda>s. serializedScript2CellDeps env (serializeScript s)) ss) = Some dss \<Longrightarrow>
   \<exists>m'. addCellDeps_scripts env ss m = Inr m' \<and>
        map fst m' = foldl set_add (map fst m) (map serializeCellDep (concat dss))"
proof (induction ss arbitrary: m dss)
  case Nil
  then show ?case by simp
next
  case (Cons s ss)
  from Cons.prems obtain ds dss' where ds: "serializedScript2CellDeps env (serializeScript s) = Some ds"
    and rest: "those (map (\<lambda>s. serializedScript2CellDeps env (serializeScript s)) ss) = Some dss'"
    and dss: "dss = ds # dss'" by (auto split: option.splits)
  from Cons.IH [OF rest, of "foldl (\<lambda>m' d. map_set m' (serializeCellDep d) d) m ds"]
  show ?case using ds dss by (simp add: map_fst_foldl_map_set)
qed

lemma addCellDeps_scripts_values:
  "those (map (\<lambda>s. serializedScript2CellDeps env (serializeScript s)) ss) = Some dss \<Longrightarrow>
   inj_on serializeCellDep (set acc \<union> set (concat dss)) \<Longrightarrow>
   addCellDeps_scripts env ss (map (\<lambda>d. (serializeCellDep d, d)) acc) =
     Inr (map (\<lambda>d. (serializeCellDep d, d)) (foldl set_add acc (concat dss)))"
proof (induction ss arbitrary: acc dss)
  case Nil
  then show ?case by simp
next
  case (Cons s ss)
  from Cons.prems(1) obtain ds dss' where ds: "serializedScript2CellDeps env (serializeScript s) = Some ds"
    and rest: "those (map (\<lambda>s. serializedScript2CellDeps env (serializeScript s)) ss) = Some dss'"
    and dss: "dss = ds # dss'" by (auto split: option.splits)
  have i1: "inj_on serializeCellDep (set acc \<union> set ds)"
    using Cons.prems(2) unfolding dss by (rule inj_on_subset) auto
  have "set (foldl set_add acc ds) \<union> set (concat dss') \<subseteq> set acc \<union> set (concat dss)"
    unfolding dss by (auto simp: set_foldl_set_add)
  with Cons.prems(2) have i2: "inj_on serializeCellDep (set (foldl set_add acc ds) \<union> set (concat dss'))"
    by (rule inj_on_subset)
  show ?case
    using Cons.IH [OF rest i2] ds dss foldl_map_set_tagged [OF i1] by simp
qed

lemmas notion_defs = resolveHeader_def blockHashOf_def
  headerContribution_def firstOccurrences_def wellFormedCellDep_def

lemmas sample_dep_defs = pwlockAccount_def foreignLock_def sharedLockSkeleton_def reorderedSkeleton_def
  secpDep_def daoDep_def

lemmas sample_skeleton_defs = multisigSkeleton_def singleSigSkeleton_def

lemma addCellDeps_keeps:
  "addCellDeps env t = Inr t' \<Longrightarrow>
   inputs t' = inputs t \<and> outputs t' = outputs t \<and> headerDeps t' = headerDeps t \<and>
   witnesses t' = witnesses t \<and> inputSinces t' = inputSinces t"
  by (auto simp: addCellDeps_def split: if_splits sum.splits)

lemma addHeaderDeps_keeps:
  "addHeaderDeps env t cb s = Inr (t', s') \<Longrightarrow>
   inputs t' = inputs t \<and> outputs t' = outputs t \<and> witnesses t' = witnesses t \<and>
   inputSinces t' = inputSinces t"
  by (auto simp: addHeaderDeps_def split: if_splits sum.splits)

lemma addInputSinces_keeps:
  "addInputSinces env t cb s = Inr (t', s') \<Longrightarrow>
   inputs t' = inputs t \<and> outputs t' = outputs t \<and> witnesses t' = witnesses t \<and>
   headerDeps t' = headerDeps t"
  by (auto simp: addInputSinces_def split: if_splits sum.splits)

lemma addWitnessPlaceholders_keeps:
  "addWitnessPlaceholders env t a cb s = Inr (t', s') \<Longrightarrow>
   inputs t' = inputs t \<and> outputs t' = outputs t \<and> headerDeps t' = headerDeps t"
  by (auto simp: addWitnessPlaceholders_def Let_def split: if_splits sum.splits)

lemma resolveSkeleton_keeps:
  assumes "resolveSkeleton env t b = Inr (t', b')"
  shows "inputs t' = inputs t \<and> outputs t' = outputs t"
proof -
  from assms obtain t1 t2 b2 t3 b3 where
    s1: "addCellDeps env t = Inr t1" and
    s2: "addHeaderDeps env t1 (getBlockHash env) b = Inr (t2, b2)" and
    s3: "addInputSinces env t2 (withdrawedDaoSince env) b2 = Inr (t3, b3)" and
    s4: "addWitnessPlaceholders env t3 (accountLock b3) (getBlockHash env) b3 = Inr (t', b')"
    by (auto simp: resolveSkeleton_def split: sum.splits)
  show ?thesis
    using addCellDeps_keeps [OF s1] addHeaderDeps_keeps [OF s2] addInputSinces_keeps [OF s3]
      addWitnessPlaceholders_keeps [OF s4] by simp
qed

lemma resolveSkeleton_lacking:
  assumes "list_ex lacksBlockNumber (inputs t)"
  shows "\<exists>e. resolveSkeleton env t b = Inl e"
proof (cases "addCellDeps env t")
  case (Inl e)
  then show ?thesis by (simp add: resolveSkeleton_def)
next
  case (Inr t1)
  from addCellDeps_keeps [OF Inr] assms have "list_ex lacksBlockNumber (inputs t1)" by simp
  from addHeaderDeps_inputs_lacking [OF this, of env "getBlockHash env" "[]" b]
  obtain e where "addHeaderDeps_inputs env (getBlockHash env) (inputs t1) [] b = Inl e" by blast
  then have "\<exists>e. addHeaderDeps env t1 (getBlockHash env) b = Inl e"
    by (simp add: addHeaderDeps_def)
  then show ?thesis using Inr by (auto simp: resolveSkeleton_def)
qed

lemma firstOccurrences_snoc:
  "firstOccurrences (xs @ [x]) = (if x \<in> set xs then firstOccurrences xs else firstOccurrences xs @ [x])"
  by (simp add: firstOccurrences_def)

lemma map_set_tagged_inv:
  "list_all (\<lambda>(k, v). k = f v) m \<Longrightarrow> list_all (\<lambda>(k, v). k = f v) (map_set m (f d) d)"
  by (induction m) (auto split: if_splits)

lemma foldl_map_set_tagged_inv:
  "list_all (\<lambda>(k, v). k = f v) m \<Longrightarrow>
   list_all (\<lambda>(k, v). k = f v) (foldl (\<lambda>m' d. map_set m' (f d) d) m ds)"
proof (induction ds arbitrary: m)
  case Nil
  then show ?case by simp
next
  case (Cons d ds)
  from Cons.IH [OF map_set_tagged_inv [OF Cons.prems, of d]] show ?case by simp
qed

lemma addCellDeps_scripts_inv:
  "addCellDeps_scripts env ss m = Inr m' \<Longrightarrow> list_all (\<lambda>(k, v). k = serializeCellDep v) m \<Longrightarrow>
   list_all (\<lambda>(k, v). k = serializeCellDep v) m'"
proof (induction ss arbitrary: m)
  case Nil
  then show ?case by simp
next
  case (Cons s ss)
  from Cons.prems(1) obtain ds where ds: "serializedScript2CellDeps env (serializeScript s) = Some ds"
    and r: "addCellDeps_scripts env ss (foldl (\<lambda>m' d. map_set m' (serializeCellDep d) d) m ds) = Inr m'"
    by (auto split: option.splits)
  from Cons.IH [OF r foldl_map_set_tagged_inv [OF Cons.prems(2)]] show ?case .
qed

lemma map_set_values: "snd ` set (map_set m k v) \<subseteq> insert v (snd ` set m)"
proof (induction m)
  case Nil
  then show ?case by simp
next
  case (Cons p m)
  obtain k' v' where p: "p = (k', v')" by (cases p)
  show ?case
  proof (cases "k' = k")
    case True
    then have "map_set (p # m) k v = (k, v) # m" unfolding p by simp
    then have "snd ` set (map_set (p # m) k v) = insert v (snd ` set m)" by simp
    also have "\<dots> \<subseteq> insert v (snd ` set (p # m))" by (rule insert_mono) (simp add: subset_insertI)
    finally show ?thesis .
  next
    case False
    then have "map_set (p # m) k v = (k', v') # map_set m k v" unfolding p by simp
    then have e1: "snd ` set (map_set (p # m) k v) = insert v' (snd ` set (map_set m k v))" by simp
    have e2: "snd ` set (p # m) = insert v' (snd ` set m)" unfolding p by simp
    have "insert v' (snd ` set (map_set m k v)) \<subseteq> insert v' (insert v (snd ` set m))"
      using Cons.IH by (rule insert_mono)
    also have "\<dots> = insert v (insert v' (snd ` set m))" by (rule insert_commute)
    finally show ?thesis unfolding e1 e2 .
  qed
qed

lemma subset_step: "A \<subseteq> B \<union> C \<Longrightarrow> B \<subseteq> insert d D \<Longrightarrow> A \<subseteq> D \<union> insert d C"
  by blast

lemma subset_step2: "A \<subseteq> B \<union> C \<Longrightarrow> B \<subseteq> D \<union> E \<Longrightarrow> A \<subseteq> D \<union> (E \<union> C)"
  by blast

lemma foldl_map_set_values:
  "snd ` set (foldl (\<lambda>m' d. map_set m' (f d) d) m ds) \<subseteq> snd ` set m \<union> set ds"
proof (induction ds arbitrary: m)
  case Nil
  then show ?case by simp
next
  case (Cons d ds)
  have "snd ` set (foldl (\<lambda>m' d. map_set m' (f d) d) (map_set m (f d) d) ds)
          \<subseteq> snd ` set m \<union> insert d (set ds)"
    using Cons.IH [of "map_set m (f d) d"] map_set_values [of m "f d" d] by (rule subset_step)
  then show ?case by (simp only: foldl_Cons list.set)
qed

lemma addCellDeps_scripts_subset:
  "addCellDeps_scripts env ss m = Inr m' \<Longrightarrow>
   those (map (\<lambda>s. serializedScript2CellDeps env (serializeScript s)) ss) = Some dss \<Longrightarrow>
   snd ` set m' \<subseteq> snd ` set m \<union> set (concat dss)"
proof (induction ss arbitrary: m dss)
  case Nil
  then show ?case by simp
next
  case (Cons s ss)
  from Cons.prems(2) obtain ds dss' where ds: "serializedScript2CellDeps env (serializeScript s) = Some ds"
    and rest: "those (map (\<lambda>s. serializedScript2CellDeps env (serializeScript s)) ss) = Some dss'"
    and dss: "dss = ds # dss'" by (auto split: option.splits)
  from Cons.prems(1) ds
  have r: "addCellDeps_scripts env ss (foldl (\<lambda>m' d. map_set m' (serializeCellDep d) d) m ds) = Inr m'"
    by simp
  have c: "set (concat dss) = set ds \<union> set (concat dss')" unfolding dss by simp
  show ?case unfolding c
    using Cons.IH [OF r rest] foldl_map_set_values [of serializeCellDep m ds] by (rule subset_step2)
qed

lemma those_map_Some_set:
  "those (map f xs) = Some ys \<Longrightarrow> set ys = {y. \<exists>x \<in> set xs. f x = Some y}"
proof (induction xs arbitrary: ys)
  case Nil
  then show ?case by simp
next
  case (Cons x xs)
  from Cons.prems obtain y ys' where "f x = Some y" "those (map f xs) = Some ys'" "ys = y # ys'"
    by (auto split: option.splits)
  with Cons.IH [of ys'] show ?case by auto
qed

lemma those_map_defined:
  "\<forall>x \<in> set xs. f x \<noteq> None \<Longrightarrow> \<exists>ys. those (map f xs) = Some ys"
  by (induction xs) auto

lemma those_map_None:
  "those (map f xs) = None \<Longrightarrow> \<exists>x \<in> set xs. f x = None"
  using those_map_defined [of xs f] by (cases "\<forall>x \<in> set xs. f x \<noteq> None") auto

lemma set_collectScripts:
  "set (collectScripts t) =
     (\<lambda>c. lock (cellOutput c)) ` set (inputs t) \<union>
     {s. \<exists>c \<in> set (inputs t) \<union> set (outputs t). type_script (cellOutput c) = Some s}"
  by (auto simp: collectScripts_def split: option.splits)

lemma addCellDeps_resolved:
  assumes e: "cellDeps t = []"
    and dss: "those (map (\<lambda>s. serializedScript2CellDeps env (serializeScript s)) (collectScripts t)) = Some dss"
  shows "\<exists>ds. addCellDeps env t = Inr (t\<lparr>cellDeps := ds\<rparr>) \<and>
           map serializeCellDep ds = firstOccurrences (map serializeCellDep (concat dss)) \<and>
           set ds \<subseteq> set (concat dss) \<and>
           (list_all wellFormedCellDep (concat dss) \<longrightarrow> ds = firstOccurrences (concat dss))"
proof -
  from addCellDeps_scripts_keys [OF dss, of "[]"] obtain m'
    where m': "addCellDeps_scripts env (collectScripts t) [] = Inr m'"
      and keys: "map fst m' = foldl set_add [] (map serializeCellDep (concat dss))"
    by auto
  have inv: "list_all (\<lambda>(k, v). k = serializeCellDep v) m'"
    using addCellDeps_scripts_inv [OF m'] by simp
  then have "map serializeCellDep (map snd m') = map fst m'" by (induction m') auto
  with keys foldl_set_add [of "[]" "map serializeCellDep (concat dss)"]
  have k: "map serializeCellDep (map snd m') = firstOccurrences (map serializeCellDep (concat dss))"
    by simp
  have run: "addCellDeps env t = Inr (t\<lparr>cellDeps := map snd m'\<rparr>)"
    using e m' by (simp add: addCellDeps_def)
  have v: "map snd m' = firstOccurrences (concat dss)" if wf: "list_all wellFormedCellDep (concat dss)"
  proof -
    have "inj_on serializeCellDep (set [] \<union> set (concat dss))"
      using wf by (auto simp: inj_on_def list_all_iff intro: serializeCellDep_inj)
    from addCellDeps_scripts_values [OF dss this] m'
    have "m' = map (\<lambda>d. (serializeCellDep d, d)) (foldl set_add [] (concat dss))" by simp
    then have "map snd m' = foldl set_add [] (concat dss)" by (simp add: comp_def)
    with foldl_set_add [of "[]" "concat dss"] show ?thesis by simp
  qed
  have sub: "set (map snd m') \<subseteq> set (concat dss)"
    using addCellDeps_scripts_subset [OF m' dss] by simp
  from run k v sub show ?thesis by blast
qed

lemma those_map_Some_all:
  "those (map f xs) = Some ys \<Longrightarrow> \<forall>x \<in> set xs. f x \<noteq> None"
  using those_map_None [of f xs] by (induction xs arbitrary: ys) (auto split: option.splits)

lemma deposit_payload_is_block_zero:
  "isDAODeposit env c \<Longrightarrow> Uint64LE_unpack (data c) = Some 0 \<and> toHexString 0 = ''0x0''"
  by (simp add: isDAODeposit_def model_defs)

lemma deposit_not_withdrawal: "isDAODeposit env c \<Longrightarrow> \<not> isDAOWithdrawal env c"
  by (simp add: isDAODeposit_def isDAOWithdrawal_def)

section \<open>The properties\<close>

text \<open>
  Claim C1. The claim: in every skeleton that \<open>buildWithChange\<close> produces, the witness of
  an input classified as a deposit carries, as \<open>inputType\<close>, the little-endian 64-bit
  position of the hash of the deposit's containing block in the header dependencies, and
  the build fails with \<open>HeaderDepNotFound\<close> when that hash is absent. The code looks
  another hash up: that of the block whose number it decodes from the cell's payload, and
  the payload of a deposit is the zero sentinel, so the block is \<open>0x0\<close>. Evaluated on the
  sample builder with the one deposit input of block \<open>0x5\<close>: the hash \<open>0xb5\<close> of that
  block is what \<open>addHeaderDeps\<close> puts into the header dependencies, at position 0, and
  \<open>buildWithChange\<close> fails with \<open>HeaderDepNotFound\<close> all the same.
\<close>

theorem deposit_input_build_fails:
  "isDAODeposit sampleEnv depositCell \<and> blockNumber depositCell = Some ''0x5'' \<and>
   blockHashOf sampleEnv (sampleBuilder sampleLock [depositCell] []) (Some ''0x5'') = Some ''0xb5'' \<and>
   map_sum id (\<lambda>(t, b). headerDeps t)
     (addHeaderDeps sampleEnv (TransactionSkeleton\<lparr>inputs := [depositCell]\<rparr>) (getBlockHash sampleEnv)
        (sampleBuilder sampleLock [depositCell] [])) = Inr [''0xb5''] \<and>
   findIndex [''0xb5''] ''0xb5'' = Some 0 \<and>
   buildWithChange sampleEnv (sampleBuilder sampleLock [depositCell] []) 0 = Inl HeaderDepNotFound"
  by (simp add: notion_defs model_defs sample_defs)

text \<open>
  The same for every environment and builder: with a deposit as its only input,
  \<open>buildWithChange\<close> returns no skeleton unless block \<open>0x0\<close> and the deposit's block have
  the same hash.
\<close>

lemma lone_deposit_never_builds:
  assumes one: "this_inputs b = [c]" and dep: "isDAODeposit env c"
    and differ: "blockHashOf env b (Some ''0x0'') \<noteq> blockHashOf env b (blockNumber c)"
  shows "\<exists>e. buildWithChange env b ckbDelta = Inl e"
proof (cases "buildWithChange env b ckbDelta")
  case (Inl e)
  then show ?thesis by blast
next
  case (Inr r)
  obtain t' b' where r: "r = (t', b')" by (cases r)
  from Inr r obtain cs where
    res: "resolveSkeleton env
            (TransactionSkeleton\<lparr>inputs := inputs TransactionSkeleton @ this_inputs b,
               outputs := outputs TransactionSkeleton @ this_outputs b @ cs\<rparr>) b = Inr (t', b')"
    by (auto simp: buildWithChange_def split: sum.splits)
  let ?t0 = "TransactionSkeleton\<lparr>inputs := inputs TransactionSkeleton @ this_inputs b,
               outputs := outputs TransactionSkeleton @ this_outputs b @ cs\<rparr>"
  from res obtain t1 t2 b2 t3 b3 where
    s1: "addCellDeps env ?t0 = Inr t1" and
    s2: "addHeaderDeps env t1 (getBlockHash env) b = Inr (t2, b2)" and
    s3: "addInputSinces env t2 (withdrawedDaoSince env) b2 = Inr (t3, b3)" and
    s4: "addWitnessPlaceholders env t3 (accountLock b3) (getBlockHash env) b3 = Inr (t', b')"
    by (auto simp: resolveSkeleton_def split: sum.splits)
  have i0: "inputs ?t0 = [c]" using one by (simp add: TransactionSkeleton_def)
  from addCellDeps_keeps [OF s1] i0 have i1: "inputs t1 = [c]" by simp
  from s2 i1 obtain h where nb: "\<not> lacksBlockNumber c"
    and g: "getBlockHash env (blockNumber c) b = Inr (h, b2)" and hd2: "headerDeps t2 = [h]"
    using dep by (auto simp: addHeaderDeps_def set_add_def split: if_splits sum.splits)
  from getBlockHash_Inr [OF g] have h: "blockHashOf env b (blockNumber c) = Some h"
    and v2: "sameView env b b2" by simp_all
  from addHeaderDeps_keeps [OF s2] i1 have i2: "inputs t2 = [c]" by simp
  from s3 i2 deposit_not_withdrawal [OF dep] have b3: "b3 = b2"
    by (auto simp: addInputSinces_def split: if_splits sum.splits)
  from addInputSinces_keeps [OF s3] i2 hd2 have i3: "inputs t3 = [c]" and hd3: "headerDeps t3 = [h]"
    by simp_all
  from deposit_payload_is_block_zero [OF dep]
  have z: "Uint64LE_unpack (data c) = Some 0" "toHexString 0 = ''0x0''" by simp_all
  from s4 i3 hd3 dep z obtain h0 bz where
    g0: "getBlockHash env (Some ''0x0'') b3 = Inr (h0, bz)" and f: "findIndex [h] h0 \<noteq> None"
    by (auto simp: addWitnessPlaceholders_def Let_def split: if_splits sum.splits option.splits)
  from getBlockHash_Inr [OF g0] have "blockHashOf env b3 (Some ''0x0'') = Some h0" by simp
  with v2 b3 have "blockHashOf env b (Some ''0x0'') = Some h0" by (simp add: blockHashOf_sameView)
  moreover from f have "h0 = h" by (simp split: if_splits)
  ultimately show ?thesis using h differ by simp
qed

text \<open>
  Claim C2. The claim: \<open>getCkbDelta\<close> returns the effective capacities of the inputs minus
  the stated capacities of the outputs, where a deposit counts with the DAO amount derived
  from the deposit header and the withdrawal-time header. The code does not take the
  deposit's header as the deposit header: under \<open>isDAODeposit\<close> it decodes the payload, the
  zero sentinel, and so passes the \<open>dao\<close> field of block \<open>0x0\<close> as that of the deposit
  header, and the \<open>dao\<close> field of the deposit's own block as that of the withdrawal-time
  header. Evaluated on the sample builder with the one deposit input of block \<open>0x5\<close>: the
  result is the DAO calculation on the \<open>dao\<close> fields \<open>0xb0\<close> of block \<open>0x0\<close> and \<open>0xb5\<close>
  of block \<open>0x5\<close>. A withdrawal cell, whose payload does encode its deposit's block, counts
  with its stated capacity only.
\<close>

theorem getCkbDelta_deposit_takes_block_zero:
  "isDAODeposit sampleEnv depositCell \<and> blockNumber depositCell = Some ''0x5'' \<and>
   map_option dao (rpc_getHeaderByNumber sampleEnv (Some ''0x5'')) = Some ''0xb5'' \<and>
   map_option dao (rpc_getHeaderByNumber sampleEnv (Some ''0x0'')) = Some ''0xb0'' \<and>
   map_sum id fst (getCkbDelta sampleEnv (sampleBuilder sampleLock [depositCell] [])) =
     Inr (calculateMaximumWithdrawCompatible sampleEnv depositCell ''0xb0'' ''0xb5'') \<and>
   calculateMaximumWithdrawCompatible sampleEnv depositCell ''0xb0'' ''0xb5'' = 10500 \<and>
   isDAOWithdrawal sampleEnv withdrawalCell \<and>
   BI_from (capacity (cellOutput withdrawalCell)) = Some 10000 \<and>
   map_sum id fst (getCkbDelta sampleEnv (sampleBuilder sampleLock [withdrawalCell] [])) = Inr 10000"
  by (simp add: model_defs sample_defs)

text \<open>
  The same for every environment and builder. With a deposit as the only input and no
  output, \<open>getCkbDelta\<close> is the DAO calculation on the header of block \<open>0x0\<close>, in the place
  of the deposit header, and the header of the deposit's own block, in the place of the
  withdrawal-time header. With a withdrawal as the only input it is the stated capacity.
\<close>

lemma getCkbDelta_lone_deposit:
  assumes one: "this_inputs b = [c]" "this_outputs b = []" and dep: "isDAODeposit env c"
    and h0: "resolveHeader env b (Some ''0x0'') = Some h0"
    and hc: "resolveHeader env b (blockNumber c) = Some hc"
  shows "\<exists>b'. getCkbDelta env b =
               Inr (calculateMaximumWithdrawCompatible env c (dao h0) (dao hc), b')"
proof -
  from deposit_payload_is_block_zero [OF dep]
  have z: "Uint64LE_unpack (data c) = Some 0" "toHexString 0 = ''0x0''" by simp_all
  from getHeaderByNumber_Some [OF h0] obtain b1
    where b1: "getHeaderByNumber env (Some ''0x0'') b = Inr (h0, b1)" "sameView env b b1" by blast
  from hc b1(2) have "resolveHeader env b1 (blockNumber c) = Some hc" by (simp add: sameView_def)
  from getHeaderByNumber_Some [OF this] obtain b2
    where b2: "getHeaderByNumber env (blockNumber c) b1 = Inr (hc, b2)" "sameView env b1 b2" by blast
  from b1(2) b2(2) one(2) have "this_outputs b2 = []" by (simp add: sameView_def)
  with one(1) dep z b1(1) b2(1) show ?thesis by (simp add: getCkbDelta_def)
qed

lemma getCkbDelta_lone_withdrawal:
  assumes "this_inputs b = [c]" "this_outputs b = []" "isDAOWithdrawal env c"
    and "BI_from (capacity (cellOutput c)) = Some v"
  shows "getCkbDelta env b = Inr (v, b)"
proof -
  from assms(3) have "\<not> isDAODeposit env c" by (auto simp: isDAODeposit_def isDAOWithdrawal_def)
  with assms show ?thesis by (simp add: getCkbDelta_def)
qed

text \<open>
  Claim C3, as stated, fails: \<open>epochCompare\<close> is not transitive on epochs of length zero.
  The three epochs are parsed from 64-bit values, with fields in range; the first compares
  equal to the second and the second to the third, and the first is greater than the third.
\<close>

theorem epochCompare_transitivity_counterexample:
  "epoch_fields_in_range (parseEpoch 0x20001000000) \<and> epoch_fields_in_range (parseEpoch 0) \<and>
   epoch_fields_in_range (parseEpoch 0x30001000000) \<and>
   epochCompare (parseEpoch 0x20001000000) (parseEpoch 0) = 0 \<and>
   epochCompare (parseEpoch 0) (parseEpoch 0x30001000000) = 0 \<and>
   epochCompare (parseEpoch 0x20001000000) (parseEpoch 0x30001000000) = 1"
  by (simp add: parseEpoch_alt epochCompare_def epoch_fields_in_range_def)

text \<open>
  Claim C3, amended. For epochs with fields in range: \<open>epochCompare\<close> is antisymmetric
  (swapping the arguments negates the result); it is transitive whenever the epoch in the
  middle has a length other than zero, for "at most" as for "equal"; and parsing the
  serialised form of an epoch gives the epoch back, which compares equal to itself.
\<close>

theorem epochCompare_order_and_roundtrip:
  assumes "epoch_fields_in_range a" "epoch_fields_in_range b" "epoch_fields_in_range c"
  shows "epochCompare a b = - epochCompare b a
       \<and> (epoch_length b \<noteq> 0 \<and> epochCompare a b \<le> 0 \<and> epochCompare b c \<le> 0 \<longrightarrow> epochCompare a c \<le> 0)
       \<and> (epoch_length b \<noteq> 0 \<and> epochCompare a b = 0 \<and> epochCompare b c = 0 \<longrightarrow> epochCompare a c = 0)
       \<and> parseEpoch_hex (stringifyEpoch a) = Some a
       \<and> epochCompare (parseEpoch (push_bit 40 (epoch_length a) + push_bit 24 (epoch_index a) + epoch_number a)) a = 0"
proof -
  have anti: "epochCompare x y = - epochCompare y x" for x y by (rule epochCompare_antisym)
  have tr: "epochCompare a c \<le> 0" if "epoch_length b \<noteq> 0" "epochCompare a b \<le> 0" "epochCompare b c \<le> 0"
    using epochCompare_trans [OF assms that] .
  have eq: "epochCompare a c = 0" if l: "epoch_length b \<noteq> 0" and "epochCompare a b = 0" "epochCompare b c = 0"
  proof -
    have 1: "epochCompare a c \<le> 0" using that by (intro epochCompare_trans [OF assms l]) simp_all
    have "epochCompare c b \<le> 0" "epochCompare b a \<le> 0" using that anti [of c b] anti [of b a] by simp_all
    from epochCompare_trans [OF assms(3,2,1) l this] have "epochCompare c a \<le> 0" .
    with 1 anti [of a c] show ?thesis by simp
  qed
  have nonneg: "0 \<le> push_bit 40 (epoch_length a) + push_bit 24 (epoch_index a) + epoch_number a"
    using assms(1) by (simp add: epoch_fields_in_range_def push_bit_eq_mult)
  have rt: "parseEpoch_hex (stringifyEpoch a) = Some a"
    unfolding parseEpoch_hex_def stringifyEpoch_def BI_from_toHexString [OF nonneg]
    by (simp only: option.map parseEpoch_pack [OF assms(1)])
  have cmp: "epochCompare (parseEpoch (push_bit 40 (epoch_length a) + push_bit 24 (epoch_index a) + epoch_number a)) a = 0"
    unfolding parseEpoch_pack [OF assms(1)] by (rule epochCompare_refl)
  show ?thesis
    using anti [of a b] tr eq rt cmp by blast
qed

theorem epochCompare_order_and_roundtrip_witness:
  "epoch_fields_in_range \<lparr> epoch_length = 4, epoch_index = 1, epoch_number = 7 \<rparr> \<and>
   epoch_fields_in_range \<lparr> epoch_length = 2, epoch_index = 1, epoch_number = 7 \<rparr> \<and>
   epoch_fields_in_range \<lparr> epoch_length = 4, epoch_index = 3, epoch_number = 7 \<rparr> \<and>
   epoch_length \<lparr> epoch_length = 2, epoch_index = 1, epoch_number = 7 \<rparr> \<noteq> 0 \<and>
   epochCompare \<lparr> epoch_length = 4, epoch_index = 1, epoch_number = 7 \<rparr>
     \<lparr> epoch_length = 2, epoch_index = 1, epoch_number = 7 \<rparr> \<le> 0 \<and>
   epochCompare \<lparr> epoch_length = 2, epoch_index = 1, epoch_number = 7 \<rparr>
     \<lparr> epoch_length = 4, epoch_index = 3, epoch_number = 7 \<rparr> \<le> 0 \<and>
   epochCompare \<lparr> epoch_length = 4, epoch_index = 1, epoch_number = 7 \<rparr>
     \<lparr> epoch_length = 4, epoch_index = 3, epoch_number = 7 \<rparr> \<le> 0 \<and>
   parseEpoch_hex (stringifyEpoch \<lparr> epoch_length = 4, epoch_index = 1, epoch_number = 7 \<rparr>)
     = Some \<lparr> epoch_length = 4, epoch_index = 1, epoch_number = 7 \<rparr>"
proof -
  let ?a = "\<lparr> epoch_length = 4, epoch_index = 1, epoch_number = 7 \<rparr>"
  let ?b = "\<lparr> epoch_length = 2, epoch_index = 1, epoch_number = 7 \<rparr>"
  let ?c = "\<lparr> epoch_length = 4, epoch_index = 3, epoch_number = 7 \<rparr>"
  have r: "epoch_fields_in_range ?a" "epoch_fields_in_range ?b" "epoch_fields_in_range ?c"
    by (simp_all add: epoch_fields_in_range_def)
  have h: "epoch_length ?b \<noteq> 0" "epochCompare ?a ?b \<le> 0" "epochCompare ?b ?c \<le> 0"
    by (simp_all add: epochCompare_def)
  note w = epochCompare_order_and_roundtrip [OF r]
  from w h have "epochCompare ?a ?c \<le> 0" by blast
  moreover from w have "parseEpoch_hex (stringifyEpoch ?a) = Some ?a" by blast
  ultimately show ?thesis using r h by blast
qed

text \<open>
  Claim C4. On a skeleton whose header dependencies are empty, with the builder's block
  hash lookup as callback: when every input carries a block number and every contribution
  is defined (the hashes resolve, a withdrawal's payload decodes), \<open>addHeaderDeps\<close> returns
  the skeleton with exactly the contributions of the inputs as header dependencies, without
  repetitions and each where it was inserted first: nothing for an ordinary input, the hash
  of its own block for a deposit, that hash and the hash of the block decoded from the
  payload for a withdrawal. When an input lacks a block number, and the inputs before it
  carry one and contribute, it fails with \<open>MissingBlockNumber\<close>.
\<close>

theorem addHeaderDeps_contributions:
  assumes "headerDeps transaction = []"
  shows "(\<forall>hss. \<not> list_ex lacksBlockNumber (inputs transaction) \<and>
            those (map (headerContribution env b) (inputs transaction)) = Some hss \<longrightarrow>
            (\<exists>b'. addHeaderDeps env transaction (getBlockHash env) b =
                    Inr (transaction\<lparr>headerDeps := firstOccurrences (concat hss)\<rparr>, b') \<and>
                  sameView env b b') \<and>
            distinct (firstOccurrences (concat hss)) \<and>
            set (firstOccurrences (concat hss)) = set (concat hss)) \<and>
         (\<forall>pre c post hss. inputs transaction = pre @ c # post \<and> lacksBlockNumber c \<and>
            \<not> list_ex lacksBlockNumber pre \<and>
            those (map (headerContribution env b) pre) = Some hss \<longrightarrow>
            addHeaderDeps env transaction (getBlockHash env) b = Inl MissingBlockNumber)"
proof (intro conjI allI impI)
  fix hss
  assume h: "\<not> list_ex lacksBlockNumber (inputs transaction) \<and>
             those (map (headerContribution env b) (inputs transaction)) = Some hss"
  from addHeaderDeps_inputs_ok [of "inputs transaction" env b hss "[]"] h obtain b'
    where r: "addHeaderDeps_inputs env (getBlockHash env) (inputs transaction) [] b =
                Inr (foldl set_add [] (concat hss), b')" "sameView env b b'"
    by blast
  have "foldl set_add [] (concat hss) = firstOccurrences (concat hss)"
    using foldl_set_add [of "[]" "concat hss"] by simp
  with r assms
  show "\<exists>b'. addHeaderDeps env transaction (getBlockHash env) b =
               Inr (transaction\<lparr>headerDeps := firstOccurrences (concat hss)\<rparr>, b') \<and> sameView env b b'"
    by (simp add: addHeaderDeps_def)
  show "distinct (firstOccurrences (concat hss))" by (rule firstOccurrences_distinct)
  show "set (firstOccurrences (concat hss)) = set (concat hss)" by (rule firstOccurrences_set)
next
  fix pre c post hss
  assume h: "inputs transaction = pre @ c # post \<and> lacksBlockNumber c \<and>
             \<not> list_ex lacksBlockNumber pre \<and> those (map (headerContribution env b) pre) = Some hss"
  from addHeaderDeps_inputs_ok [of pre env b hss "[]"] h obtain b'
    where r: "addHeaderDeps_inputs env (getBlockHash env) pre [] b = Inr (foldl set_add [] (concat hss), b')"
    by blast
  have "addHeaderDeps_inputs env (getBlockHash env) (pre @ c # post) [] b = Inl MissingBlockNumber"
    unfolding addHeaderDeps_inputs_append r using h by simp
  with h assms show "addHeaderDeps env transaction (getBlockHash env) b = Inl MissingBlockNumber"
    by (simp add: addHeaderDeps_def)
qed

theorem addHeaderDeps_contributions_witness:
  "headerDeps (TransactionSkeleton\<lparr>inputs := [withdrawalCell, depositCell, plainCell]\<rparr>) = [] \<and>
   \<not> list_ex lacksBlockNumber [withdrawalCell, depositCell, plainCell] \<and>
   those (map (headerContribution sampleEnv (sampleBuilder sampleLock [] []))
            [withdrawalCell, depositCell, plainCell]) = Some [[''0xb9'', ''0xb5''], [''0xb5''], []] \<and>
   (\<exists>b'. addHeaderDeps sampleEnv (TransactionSkeleton\<lparr>inputs := [withdrawalCell, depositCell, plainCell]\<rparr>)
            (getBlockHash sampleEnv) (sampleBuilder sampleLock [] []) =
          Inr (TransactionSkeleton\<lparr>inputs := [withdrawalCell, depositCell, plainCell],
                 headerDeps := [''0xb9'', ''0xb5'']\<rparr>, b')) \<and>
   lacksBlockNumber unplacedCell \<and>
   those (map (headerContribution sampleEnv (sampleBuilder sampleLock [] [])) [depositCell])
     = Some [[''0xb5'']] \<and>
   addHeaderDeps sampleEnv (TransactionSkeleton\<lparr>inputs := [depositCell, unplacedCell, plainCell]\<rparr>)
     (getBlockHash sampleEnv) (sampleBuilder sampleLock [] []) = Inl MissingBlockNumber"
proof -
  let ?b = "sampleBuilder sampleLock [] []"
  let ?t = "TransactionSkeleton\<lparr>inputs := [withdrawalCell, depositCell, plainCell]\<rparr>"
  let ?u = "TransactionSkeleton\<lparr>inputs := [depositCell, unplacedCell, plainCell]\<rparr>"
  have e: "headerDeps ?t = []" "headerDeps ?u = []" by (simp_all add: TransactionSkeleton_def)
  have i: "inputs ?t = [withdrawalCell, depositCell, plainCell]"
    "inputs ?u = [depositCell] @ unplacedCell # [plainCell]" by (simp_all add: TransactionSkeleton_def)
  have l: "\<not> list_ex lacksBlockNumber [withdrawalCell, depositCell, plainCell]"
    "\<not> list_ex lacksBlockNumber [depositCell]" "lacksBlockNumber unplacedCell"
    by (simp_all add: model_defs sample_defs)
  have c: "those (map (headerContribution sampleEnv ?b) [withdrawalCell, depositCell, plainCell])
             = Some [[''0xb9'', ''0xb5''], [''0xb5''], []]"
    by (simp add: notion_defs model_defs sample_defs)
  have d: "those (map (headerContribution sampleEnv ?b) [depositCell]) = Some [[''0xb5'']]"
    by (simp add: notion_defs model_defs sample_defs)
  have f: "firstOccurrences (concat [[''0xb9'', ''0xb5''], [''0xb5''], []]) = [''0xb9'', ''0xb5'']"
    by (simp add: firstOccurrences_def)
  from addHeaderDeps_contributions [OF e(1), of sampleEnv ?b] l(1) c
  have "\<exists>b'. addHeaderDeps sampleEnv ?t (getBlockHash sampleEnv) ?b =
          Inr (?t\<lparr>headerDeps := firstOccurrences (concat [[''0xb9'', ''0xb5''], [''0xb5''], []])\<rparr>, b')"
    unfolding i(1) by blast
  then have 1: "\<exists>b'. addHeaderDeps sampleEnv ?t (getBlockHash sampleEnv) ?b =
          Inr (?t\<lparr>headerDeps := [''0xb9'', ''0xb5'']\<rparr>, b')"
    unfolding f .
  from addHeaderDeps_contributions [OF e(2), of sampleEnv ?b] i(2) l(2,3) d
  have 2: "addHeaderDeps sampleEnv ?u (getBlockHash sampleEnv) ?b = Inl MissingBlockNumber"
    by blast
  from 1 2 e(1) l(1,3) c d show ?thesis by simp
qed

text \<open>
  Claim C5. On a skeleton whose code dependencies are empty, \<open>addCellDeps\<close> collects the
  lock scripts of the inputs and the type scripts, where present, of inputs and outputs.
  It fails with \<open>UnresolvedScript\<close> when one of them has no entry in the table of known
  dependencies. When all have one, it returns the skeleton with their dependencies, one
  per serialised key (outPoint and depType) in the order in which the keys are first seen;
  for well-formed dependencies these are the dependencies themselves without repetitions,
  each where it occurs first, so that a lock script shared by two inputs contributes once;
  and a skeleton with the same inputs and outputs in any other order resolves to the same
  set.
\<close>

theorem addCellDeps_resolution:
  assumes "cellDeps transaction = []"
  shows "set (collectScripts transaction) =
           (\<lambda>c. lock (cellOutput c)) ` set (inputs transaction) \<union>
           {s. \<exists>c \<in> set (inputs transaction) \<union> set (outputs transaction).
                 type_script (cellOutput c) = Some s} \<and>
         ((\<exists>s \<in> set (collectScripts transaction).
              serializedScript2CellDeps env (serializeScript s) = None) \<longrightarrow>
            addCellDeps env transaction = Inl UnresolvedScript) \<and>
         (\<forall>dss. those (map (\<lambda>s. serializedScript2CellDeps env (serializeScript s))
                        (collectScripts transaction)) = Some dss \<longrightarrow>
            (\<exists>ds. addCellDeps env transaction = Inr (transaction\<lparr>cellDeps := ds\<rparr>) \<and>
               map serializeCellDep ds = firstOccurrences (map serializeCellDep (concat dss)) \<and>
               distinct (map serializeCellDep ds) \<and>
               set ds \<subseteq> set (concat dss) \<and>
               (list_all wellFormedCellDep (concat dss) \<longrightarrow>
                  ds = firstOccurrences (concat dss) \<and>
                  (\<forall>t'. cellDeps t' = [] \<and> set (inputs t') = set (inputs transaction) \<and>
                        set (outputs t') = set (outputs transaction) \<longrightarrow>
                        (\<exists>ds'. addCellDeps env t' = Inr (t'\<lparr>cellDeps := ds'\<rparr>) \<and>
                               set ds' = set ds)))))"
proof (intro conjI allI impI)
  show "set (collectScripts transaction) =
           (\<lambda>c. lock (cellOutput c)) ` set (inputs transaction) \<union>
           {s. \<exists>c \<in> set (inputs transaction) \<union> set (outputs transaction).
                 type_script (cellOutput c) = Some s}"
    by (rule set_collectScripts)
next
  assume "\<exists>s \<in> set (collectScripts transaction). serializedScript2CellDeps env (serializeScript s) = None"
  from addCellDeps_scripts_unresolved [OF this] assms
  show "addCellDeps env transaction = Inl UnresolvedScript" by (simp add: addCellDeps_def)
next
  fix dss
  let ?f = "\<lambda>s. serializedScript2CellDeps env (serializeScript s)"
  assume dss: "those (map ?f (collectScripts transaction)) = Some dss"
  from addCellDeps_resolved [OF assms dss] obtain ds
    where run: "addCellDeps env transaction = Inr (transaction\<lparr>cellDeps := ds\<rparr>)"
      and keys: "map serializeCellDep ds = firstOccurrences (map serializeCellDep (concat dss))"
      and sub: "set ds \<subseteq> set (concat dss)"
      and val: "list_all wellFormedCellDep (concat dss) \<longrightarrow> ds = firstOccurrences (concat dss)"
    by blast
  have dist: "distinct (map serializeCellDep ds)" unfolding keys by (rule firstOccurrences_distinct)
  have perm: "\<exists>ds'. addCellDeps env t' = Inr (t'\<lparr>cellDeps := ds'\<rparr>) \<and> set ds' = set ds"
    if wf: "list_all wellFormedCellDep (concat dss)"
      and t': "cellDeps t' = [] \<and> set (inputs t') = set (inputs transaction) \<and>
               set (outputs t') = set (outputs transaction)" for t'
  proof -
    have same: "set (collectScripts t') = set (collectScripts transaction)"
      unfolding set_collectScripts using t' by simp
    from those_map_Some_all [OF dss] same
    have "\<forall>s \<in> set (collectScripts t'). ?f s \<noteq> None" by simp
    from those_map_defined [OF this] obtain dss'
      where dss': "those (map ?f (collectScripts t')) = Some dss'" by blast
    have "set dss' = set dss"
      unfolding those_map_Some_set [OF dss'] those_map_Some_set [OF dss] same ..
    then have c: "set (concat dss') = set (concat dss)" by simp
    with wf have wf': "list_all wellFormedCellDep (concat dss')" by (simp add: list_all_iff)
    from t' have e': "cellDeps t' = []" by simp
    from addCellDeps_resolved [OF e' dss'] wf' obtain ds'
      where r': "addCellDeps env t' = Inr (t'\<lparr>cellDeps := ds'\<rparr>)"
        and v': "ds' = firstOccurrences (concat dss')"
      by blast
    from val wf have v: "ds = firstOccurrences (concat dss)" by simp
    have "set ds' = set ds" unfolding v v' firstOccurrences_set by (rule c)
    with r' show ?thesis by blast
  qed
  have full: "ds = firstOccurrences (concat dss) \<and>
                  (\<forall>t'. cellDeps t' = [] \<and> set (inputs t') = set (inputs transaction) \<and>
                        set (outputs t') = set (outputs transaction) \<longrightarrow>
                        (\<exists>ds'. addCellDeps env t' = Inr (t'\<lparr>cellDeps := ds'\<rparr>) \<and>
                               set ds' = set ds))"
    if wf: "list_all wellFormedCellDep (concat dss)"
  proof (intro conjI allI impI)
    from val wf show "ds = firstOccurrences (concat dss)" by simp
  next
    fix t' :: transactionSkeleton
    assume "cellDeps t' = [] \<and> set (inputs t') = set (inputs transaction) \<and>
            set (outputs t') = set (outputs transaction)"
    from perm [OF wf this]
    show "\<exists>ds'. addCellDeps env t' = Inr (t'\<lparr>cellDeps := ds'\<rparr>) \<and> set ds' = set ds" .
  qed
  show "\<exists>ds. addCellDeps env transaction = Inr (transaction\<lparr>cellDeps := ds\<rparr>) \<and>
               map serializeCellDep ds = firstOccurrences (map serializeCellDep (concat dss)) \<and>
               distinct (map serializeCellDep ds) \<and>
               set ds \<subseteq> set (concat dss) \<and>
               (list_all wellFormedCellDep (concat dss) \<longrightarrow>
                  ds = firstOccurrences (concat dss) \<and>
                  (\<forall>t'. cellDeps t' = [] \<and> set (inputs t') = set (inputs transaction) \<and>
                        set (outputs t') = set (outputs transaction) \<longrightarrow>
                        (\<exists>ds'. addCellDeps env t' = Inr (t'\<lparr>cellDeps := ds'\<rparr>) \<and>
                               set ds' = set ds)))"
  proof (intro exI [of _ ds] conjI impI)
    show "addCellDeps env transaction = Inr (transaction\<lparr>cellDeps := ds\<rparr>)" by (rule run)
    show "map serializeCellDep ds = firstOccurrences (map serializeCellDep (concat dss))" by (rule keys)
    show "distinct (map serializeCellDep ds)" by (rule dist)
    show "set ds \<subseteq> set (concat dss)" by (rule sub)
  next
    assume wf: "list_all wellFormedCellDep (concat dss)"
    from full [OF wf] show "ds = firstOccurrences (concat dss)" by (rule conjunct1)
    from full [OF wf]
    show "\<forall>t'. cellDeps t' = [] \<and> set (inputs t') = set (inputs transaction) \<and>
                        set (outputs t') = set (outputs transaction) \<longrightarrow>
                        (\<exists>ds'. addCellDeps env t' = Inr (t'\<lparr>cellDeps := ds'\<rparr>) \<and>
                               set ds' = set ds)" by (rule conjunct2)
  qed
qed

theorem addCellDeps_resolution_witness:
  "cellDeps sharedLockSkeleton = [] \<and>
   those (map (\<lambda>s. serializedScript2CellDeps sampleEnv (serializeScript s))
            (collectScripts sharedLockSkeleton)) = Some [[secpDep], [secpDep], [secpDep], [daoDep]] \<and>
   list_all wellFormedCellDep (concat [[secpDep], [secpDep], [secpDep], [daoDep]]) \<and>
   addCellDeps sampleEnv sharedLockSkeleton = Inr (sharedLockSkeleton\<lparr>cellDeps := [secpDep, daoDep]\<rparr>) \<and>
   (\<exists>ds'. addCellDeps sampleEnv reorderedSkeleton = Inr (reorderedSkeleton\<lparr>cellDeps := ds'\<rparr>) \<and>
          set ds' = {secpDep, daoDep}) \<and>
   addCellDeps sampleEnv (TransactionSkeleton\<lparr>inputs := [sampleCell foreignLock None ''0x'' (Some ''0x5'')]\<rparr>)
     = Inl UnresolvedScript"
proof -
  let ?dss = "[[secpDep], [secpDep], [secpDep], [daoDep]]"
  let ?u = "TransactionSkeleton\<lparr>inputs := [sampleCell foreignLock None ''0x'' (Some ''0x5'')]\<rparr>"
  have e: "cellDeps sharedLockSkeleton = []" "cellDeps reorderedSkeleton = []" "cellDeps ?u = []"
    by (simp_all add: sample_dep_defs TransactionSkeleton_def)
  have l: "those (map (\<lambda>s. serializedScript2CellDeps sampleEnv (serializeScript s))
            (collectScripts sharedLockSkeleton)) = Some ?dss"
    by (simp add: sample_dep_defs model_defs sample_defs)
  have wf: "list_all wellFormedCellDep (concat ?dss)"
    by (simp add: sample_dep_defs wellFormedCellDep_def)
  have f: "firstOccurrences (concat ?dss) = [secpDep, daoDep]"
    by (simp add: firstOccurrences_def sample_dep_defs)
  have r: "cellDeps reorderedSkeleton = [] \<and> set (inputs reorderedSkeleton) = set (inputs sharedLockSkeleton) \<and>
        set (outputs reorderedSkeleton) = set (outputs sharedLockSkeleton)"
    by (auto simp: sample_dep_defs TransactionSkeleton_def)
  have un: "\<exists>s \<in> set (collectScripts ?u). serializedScript2CellDeps sampleEnv (serializeScript s) = None"
    by (simp add: sample_dep_defs model_defs sample_defs)
  note w = addCellDeps_resolution [OF e(1), of sampleEnv]
  from w l wf obtain ds where ds: "addCellDeps sampleEnv sharedLockSkeleton = Inr (sharedLockSkeleton\<lparr>cellDeps := ds\<rparr>)"
    "ds = firstOccurrences (concat ?dss)"
    "\<forall>t'. cellDeps t' = [] \<and> set (inputs t') = set (inputs sharedLockSkeleton) \<and>
        set (outputs t') = set (outputs sharedLockSkeleton) \<longrightarrow>
        (\<exists>ds'. addCellDeps sampleEnv t' = Inr (t'\<lparr>cellDeps := ds'\<rparr>) \<and> set ds' = set ds)"
    by blast
  from ds(3) r have "\<exists>ds'. addCellDeps sampleEnv reorderedSkeleton = Inr (reorderedSkeleton\<lparr>cellDeps := ds'\<rparr>) \<and>
          set ds' = set ds" by blast
  then have 2: "\<exists>ds'. addCellDeps sampleEnv reorderedSkeleton = Inr (reorderedSkeleton\<lparr>cellDeps := ds'\<rparr>) \<and>
          set ds' = {secpDep, daoDep}" unfolding ds(2) f by simp
  from ds(1,2) f have 1: "addCellDeps sampleEnv sharedLockSkeleton = Inr (sharedLockSkeleton\<lparr>cellDeps := [secpDep, daoDep]\<rparr>)"
    by simp
  from addCellDeps_resolution [OF e(3), of sampleEnv] un
  have 3: "addCellDeps sampleEnv ?u = Inl UnresolvedScript" by blast
  from e(1) l wf 1 2 3 show ?thesis by blast
qed

text \<open>
  Claim C6. For a size and a rate that are not negative, \<open>calculateFee\<close> is their product
  divided by 1000 and rounded up exactly when the remainder is not zero; a thousand times
  the fee is at least the product; the fee of size zero is zero; and the fee does not
  decrease when the size or the rate grows.
\<close>

theorem calculateFee_ceiling:
  assumes "0 \<le> sz" "0 \<le> rate"
  shows "calculateFee sz rate = sz * rate div 1000 + (if sz * rate mod 1000 = 0 then 0 else 1)
       \<and> calculateFee sz rate * 1000 \<ge> sz * rate
       \<and> calculateFee 0 rate = 0
       \<and> (\<forall>sz'. sz \<le> sz' \<longrightarrow> calculateFee sz rate \<le> calculateFee sz' rate)
       \<and> (\<forall>rate'. rate \<le> rate' \<longrightarrow> calculateFee sz rate \<le> calculateFee sz rate')"
  using assms calculateFee_explicit [of sz rate] calculateFee_covers [of sz rate]
    calculateFee_zero [of rate] calculateFee_mono [of sz _ rate rate] calculateFee_mono [of sz sz rate]
  by auto

theorem calculateFee_ceiling_witness:
  "(0::int) \<le> 401 \<and> (0::int) \<le> 1001 \<and> calculateFee 401 1001 = 402 \<and>
   calculateFee 401 1001 * 1000 \<ge> 401 * 1001 \<and> calculateFee 0 1001 = 0 \<and>
   calculateFee 401 1001 \<le> calculateFee 500 1001 \<and> calculateFee 401 1001 \<le> calculateFee 401 2000"
proof -
  have h1: "(0::int) \<le> 401" and h2: "(0::int) \<le> 1001" by simp_all
  note w = calculateFee_ceiling [OF h1 h2]
  from w have m1: "\<forall>sz'. 401 \<le> sz' \<longrightarrow> calculateFee 401 1001 \<le> calculateFee sz' 1001"
    and m2: "\<forall>rate'. 1001 \<le> rate' \<longrightarrow> calculateFee 401 1001 \<le> calculateFee 401 rate'"
    by blast+
  from m1 have "calculateFee 401 1001 \<le> calculateFee 500 1001" by simp
  moreover from m2 have "calculateFee 401 1001 \<le> calculateFee 401 2000" by simp
  moreover from w have "calculateFee 401 1001 = 402" "calculateFee 401 1001 * 1000 \<ge> 401 * 1001"
    "calculateFee 0 1001 = 0" by simp_all
  ultimately show ?thesis by simp
qed

text \<open>
  Claim C7. \<open>buildWithChange(delta)\<close> appends no change output when the delta is zero. For a
  delta other than zero it appends one change output, of capacity delta (its hexadecimal
  form, which reads back as delta), locked by the account lock and without a type script,
  when the delta is at least the minimal capacity of that cell; otherwise it fails with
  \<open>InsufficientFunds\<close>. In the first two cases the build goes on to resolve the skeleton
  with these outputs, and every skeleton it returns has exactly them.
\<close>

theorem buildWithChange_change_output:
  "(ckbDelta \<noteq> 0 \<and> ckbDelta < minimalCellCapacityCompatible env (changeCell b ckbDelta) \<longrightarrow>
      buildWithChange env b ckbDelta = Inl InsufficientFunds) \<and>
   (ckbDelta = 0 \<or> ckbDelta \<ge> minimalCellCapacityCompatible env (changeCell b ckbDelta) \<longrightarrow>
      buildWithChange env b ckbDelta =
        resolveSkeleton env
          (TransactionSkeleton\<lparr>inputs := this_inputs b,
             outputs := this_outputs b @ (if ckbDelta = 0 then [] else [changeCell b ckbDelta])\<rparr>) b) \<and>
   (\<forall>t b'. buildWithChange env b ckbDelta = Inr (t, b') \<longrightarrow>
      inputs t = this_inputs b \<and>
      outputs t = this_outputs b @ (if ckbDelta = 0 then [] else [changeCell b ckbDelta])) \<and>
   capacity (cellOutput (changeCell b ckbDelta)) = toHexString ckbDelta \<and>
   (0 \<le> ckbDelta \<longrightarrow> BI_from (capacity (cellOutput (changeCell b ckbDelta))) = Some ckbDelta) \<and>
   lock (cellOutput (changeCell b ckbDelta)) = accountLock b \<and>
   type_script (cellOutput (changeCell b ckbDelta)) = None"
proof -
  have keep: "inputs t = this_inputs b \<and>
      outputs t = this_outputs b @ (if ckbDelta = 0 then [] else [changeCell b ckbDelta])"
    if "buildWithChange env b ckbDelta = Inr (t, b')" for t b'
  proof -
    from that obtain cs where cs: "changeCells env b ckbDelta = Inr cs"
      and r: "resolveSkeleton env
                (TransactionSkeleton\<lparr>inputs := inputs TransactionSkeleton @ this_inputs b,
                   outputs := outputs TransactionSkeleton @ this_outputs b @ cs\<rparr>) b = Inr (t, b')"
      by (auto simp: buildWithChange_def split: sum.splits)
    from cs have "cs = (if ckbDelta = 0 then [] else [changeCell b ckbDelta])"
      by (auto simp: changeCells_def split: if_splits)
    with resolveSkeleton_keeps [OF r] show ?thesis by (simp add: TransactionSkeleton_def)
  qed
  show ?thesis
    using keep
    by (auto simp: buildWithChange_def changeCells_def changeCell_def TransactionSkeleton_def
        BI_from_toHexString)
qed

theorem buildWithChange_change_output_witness:
  "map_sum id (\<lambda>(t, b). outputs t)
     (buildWithChange sampleEnv (sampleBuilder sampleLock [plainCell] [plainCell]) 0) = Inr [plainCell] \<and>
   map_sum id (\<lambda>(t, b). outputs t)
     (buildWithChange sampleEnv (sampleBuilder sampleLock [plainCell] [plainCell]) 7000000000)
     = Inr [plainCell, changeCell (sampleBuilder sampleLock [plainCell] [plainCell]) 7000000000] \<and>
   buildWithChange sampleEnv (sampleBuilder sampleLock [plainCell] [plainCell]) 5000000000
     = Inl InsufficientFunds"
proof -
  let ?b = "sampleBuilder sampleLock [plainCell] [plainCell]"
  have m: "minimalCellCapacityCompatible sampleEnv c = 6100000000" for c
    by (simp add: sampleEnv_def)
  obtain t0 b0 where r0: "buildWithChange sampleEnv ?b 0 = Inr (t0, b0)"
    by (cases "buildWithChange sampleEnv ?b 0"; simp add: model_defs sample_defs)
  obtain t1 b1 where r1: "buildWithChange sampleEnv ?b 7000000000 = Inr (t1, b1)"
    by (cases "buildWithChange sampleEnv ?b 7000000000"; simp add: model_defs sample_defs)
  from buildWithChange_change_output [of 0 sampleEnv ?b] r0
  have "outputs t0 = [plainCell]" by (simp add: sampleBuilder_def)
  moreover from buildWithChange_change_output [of 7000000000 sampleEnv ?b] r1
  have "outputs t1 = [plainCell, changeCell ?b 7000000000]" by (simp add: sampleBuilder_def)
  moreover from buildWithChange_change_output [of 5000000000 sampleEnv ?b] m
  have "buildWithChange sampleEnv ?b 5000000000 = Inl InsufficientFunds" by simp
  ultimately show ?thesis using r0 r1 by simp
qed

text \<open>
  Claim C8. In every skeleton that \<open>addWitnessPlaceholders\<close> returns there is one witness
  per input, the packing of a \<open>WitnessArgs\<close> whose lock field is the placeholder of 65 zero
  bytes if the input's lock equals the account lock and either the account lock is of the
  \<open>PWLOCK\<close> kind listed in the configuration or no earlier input has that lock, and is
  empty otherwise: the first matching input alone is padded, or every matching input when
  the account lock is of the listed kind.
\<close>

theorem addWitnessPlaceholders_padding:
  assumes "addWitnessPlaceholders env transaction acctLock blockNumber2BlockHash s = Inr (t', s')"
  shows "length (witnesses t') = length (inputs transaction) \<and>
         (\<forall>i < length (inputs transaction). \<exists>it.
            witnesses t' ! i =
              packWitnessArgs env
                \<lparr> witness_lock =
                    (if lock (cellOutput (inputs transaction ! i)) = acctLock \<and>
                        ((''PWLOCK'' \<in> set (scriptsNames env) \<and>
                          isScript acctLock (defaultScript env ''PWLOCK'')) \<or>
                         (\<forall>j < i. lock (cellOutput (inputs transaction ! j)) \<noteq> acctLock))
                     then signaturePlaceholder else ''0x''),
                  inputType = it \<rparr>) \<and>
         bytify signaturePlaceholder = Some (replicate 65 0) \<and> bytify ''0x'' = Some []"
proof -
  define all where
    "all \<longleftrightarrow> ''PWLOCK'' \<in> set (scriptsNames env) \<and> isScript acctLock (defaultScript env ''PWLOCK'')"
  define n where "n = (if all then length (inputs transaction) else 1)"
  let ?cs = "inputs transaction"
  let ?P = "\<lambda>c. lock (cellOutput c) = acctLock"
  from assms have run: "addWitnessPlaceholders_inputs env (headerDeps transaction) acctLock
                blockNumber2BlockHash ?cs n [] s = Inr (witnesses t', s')"
    by (auto simp: addWitnessPlaceholders_def Let_def n_def all_def split: if_splits sum.splits)
  from addWitnessPlaceholders_inputs_shape [OF run] obtain its where its: "length its = length ?cs"
    and ws: "witnesses t' = map (\<lambda>(l, it). packWitnessArgs env \<lparr> witness_lock = l, inputType = it \<rparr>)
                              (zip (lockFields acctLock n ?cs) its)"
    by auto
  have len: "length (witnesses t') = length ?cs"
    unfolding ws using its by (simp add: length_lockFields)
  have nth: "\<exists>it. witnesses t' ! i =
              packWitnessArgs env
                \<lparr> witness_lock = (if ?P (?cs ! i) \<and> (all \<or> (\<forall>j < i. \<not> ?P (?cs ! j)))
                                  then signaturePlaceholder else ''0x''),
                  inputType = it \<rparr>"
    if i: "i < length ?cs" for i
  proof -
    have cnt: "length (filter ?P (take i ?cs)) < n \<longleftrightarrow> (all \<or> (\<forall>j < i. \<not> ?P (?cs ! j)))"
    proof (cases all)
      case True
      then have "n = length ?cs" by (simp add: n_def)
      with count_lt_length [OF i, of ?P] True show ?thesis by simp
    next
      case False
      then have n1: "n = 1" by (simp add: n_def)
      have "i \<le> length ?cs" using i by simp
      from count_lt_one [OF this, of ?P] False show ?thesis unfolding n1 by blast
    qed
    have "witnesses t' ! i =
            packWitnessArgs env \<lparr> witness_lock = lockFields acctLock n ?cs ! i, inputType = its ! i \<rparr>"
      unfolding ws using i its by (simp add: length_lockFields)
    then show ?thesis unfolding lockFields_nth [OF i] cnt by blast
  qed
  have b: "bytify signaturePlaceholder = Some (replicate 65 0)" "bytify ''0x'' = Some []"
    by (simp_all add: signaturePlaceholder_def bytify_def digitValue_def numeral_eq_Suc)
  from len nth b show ?thesis unfolding all_def by blast
qed

theorem addWitnessPlaceholders_padding_witness:
  "(\<exists>t' s'. addWitnessPlaceholders sampleEnv multisigSkeleton pwlockAccount (getBlockHash sampleEnv)
              (sampleBuilder pwlockAccount [] []) = Inr (t', s') \<and>
      (\<exists>it. witnesses t' ! 0 = packWitnessArgs sampleEnv \<lparr> witness_lock = ''0x'', inputType = it \<rparr>) \<and>
      (\<exists>it. witnesses t' ! 1 =
             packWitnessArgs sampleEnv \<lparr> witness_lock = signaturePlaceholder, inputType = it \<rparr>) \<and>
      (\<exists>it. witnesses t' ! 2 =
             packWitnessArgs sampleEnv \<lparr> witness_lock = signaturePlaceholder, inputType = it \<rparr>)) \<and>
   (\<exists>t' s'. addWitnessPlaceholders sampleEnv singleSigSkeleton sampleLock (getBlockHash sampleEnv)
              (sampleBuilder sampleLock [] []) = Inr (t', s') \<and>
      (\<exists>it. witnesses t' ! 0 =
             packWitnessArgs sampleEnv \<lparr> witness_lock = signaturePlaceholder, inputType = it \<rparr>) \<and>
      (\<exists>it. witnesses t' ! 1 = packWitnessArgs sampleEnv \<lparr> witness_lock = ''0x'', inputType = it \<rparr>))"
proof -
  let ?bm = "sampleBuilder pwlockAccount [] []"
  let ?bs = "sampleBuilder sampleLock [] []"
  obtain tm sm where rm: "addWitnessPlaceholders sampleEnv multisigSkeleton pwlockAccount
                            (getBlockHash sampleEnv) ?bm = Inr (tm, sm)"
    by (cases "addWitnessPlaceholders sampleEnv multisigSkeleton pwlockAccount (getBlockHash sampleEnv) ?bm";
        simp add: model_defs sample_defs sample_dep_defs sample_skeleton_defs)
  obtain ts ss where rs: "addWitnessPlaceholders sampleEnv singleSigSkeleton sampleLock
                            (getBlockHash sampleEnv) ?bs = Inr (ts, ss)"
    by (cases "addWitnessPlaceholders sampleEnv singleSigSkeleton sampleLock (getBlockHash sampleEnv) ?bs";
        simp add: model_defs sample_defs sample_dep_defs sample_skeleton_defs)
  have im: "inputs multisigSkeleton = [sampleCell foreignLock None ''0x'' (Some ''0x5''),
                    sampleCell pwlockAccount None ''0x'' (Some ''0x5''),
                    sampleCell pwlockAccount None ''0x'' (Some ''0x9'')]"
    and isg: "inputs singleSigSkeleton = [sampleCell sampleLock None ''0x'' (Some ''0x5''),
                    sampleCell sampleLock None ''0x'' (Some ''0x9'')]"
    by (simp_all add: sample_skeleton_defs TransactionSkeleton_def)
  have all: "''PWLOCK'' \<in> set (scriptsNames sampleEnv) \<and> isScript pwlockAccount (defaultScript sampleEnv ''PWLOCK'')"
    "\<not> (''PWLOCK'' \<in> set (scriptsNames sampleEnv) \<and> isScript sampleLock (defaultScript sampleEnv ''PWLOCK''))"
    by (simp_all add: model_defs sample_defs sample_dep_defs)
  have lk: "lock (cellOutput (sampleCell l t d bn)) = l" for l t d bn by (simp add: sampleCell_def)
  have ne: "foreignLock \<noteq> pwlockAccount" by (simp add: sample_dep_defs)
  have nz: "\<not> (\<forall>j::nat. 0 < j)" by auto
  note wm = addWitnessPlaceholders_padding [OF rm]
  note ws = addWitnessPlaceholders_padding [OF rs]
  from wm have m: "\<forall>i < 3. \<exists>it. witnesses tm ! i =
              packWitnessArgs sampleEnv
                \<lparr> witness_lock =
                    (if lock (cellOutput (inputs multisigSkeleton ! i)) = pwlockAccount
                     then signaturePlaceholder else ''0x''),
                  inputType = it \<rparr>"
    using all(1) unfolding im by simp
  from ws have s: "\<forall>i < 2. \<exists>it. witnesses ts ! i =
              packWitnessArgs sampleEnv
                \<lparr> witness_lock =
                    (if lock (cellOutput (inputs singleSigSkeleton ! i)) = sampleLock \<and>
                        (\<forall>j < i. lock (cellOutput (inputs singleSigSkeleton ! j)) \<noteq> sampleLock)
                     then signaturePlaceholder else ''0x''),
                  inputType = it \<rparr>"
    using all(2) unfolding isg by simp
  from m [rule_format, of 0] m [rule_format, of 1] m [rule_format, of 2]
  have M: "\<exists>it. witnesses tm ! 0 = packWitnessArgs sampleEnv \<lparr> witness_lock = ''0x'', inputType = it \<rparr>"
    "\<exists>it. witnesses tm ! 1 = packWitnessArgs sampleEnv \<lparr> witness_lock = signaturePlaceholder, inputType = it \<rparr>"
    "\<exists>it. witnesses tm ! 2 = packWitnessArgs sampleEnv \<lparr> witness_lock = signaturePlaceholder, inputType = it \<rparr>"
    unfolding im by (simp_all add: lk ne)
  from s [rule_format, of 0] s [rule_format, of 1]
  have S: "\<exists>it. witnesses ts ! 0 = packWitnessArgs sampleEnv \<lparr> witness_lock = signaturePlaceholder, inputType = it \<rparr>"
    "\<exists>it. witnesses ts ! 1 = packWitnessArgs sampleEnv \<lparr> witness_lock = ''0x'', inputType = it \<rparr>"
    unfolding isg by (simp_all add: lk nz)
  from rm rs M S show ?thesis by blast
qed

text \<open>
  Claim C9. A dependency resolver called on a skeleton whose target field is not empty
  fails with \<open>AlreadyPopulated\<close>: \<open>addCellDeps\<close> when \<open>cellDeps\<close> is not empty,
  \<open>addHeaderDeps\<close> when \<open>headerDeps\<close> is not empty, whatever the callback and its state.
\<close>

theorem resolvers_reject_populated_skeleton:
  "(cellDeps transaction \<noteq> [] \<longrightarrow> addCellDeps env transaction = Inl AlreadyPopulated) \<and>
   (headerDeps transaction \<noteq> [] \<longrightarrow>
      addHeaderDeps env transaction blockNumber2BlockHash s = Inl AlreadyPopulated)"
  by (simp add: addCellDeps_def addHeaderDeps_def)

theorem resolvers_reject_populated_skeleton_witness:
  "cellDeps (TransactionSkeleton\<lparr>cellDeps := [defaultCellDeps sampleEnv None], headerDeps := [''0xb5'']\<rparr>) \<noteq> [] \<and>
   headerDeps (TransactionSkeleton\<lparr>cellDeps := [defaultCellDeps sampleEnv None], headerDeps := [''0xb5'']\<rparr>) \<noteq> [] \<and>
   addCellDeps sampleEnv
     (TransactionSkeleton\<lparr>cellDeps := [defaultCellDeps sampleEnv None], headerDeps := [''0xb5'']\<rparr>)
     = Inl AlreadyPopulated \<and>
   addHeaderDeps sampleEnv
     (TransactionSkeleton\<lparr>cellDeps := [defaultCellDeps sampleEnv None], headerDeps := [''0xb5'']\<rparr>)
     (getBlockHash sampleEnv) (sampleBuilder sampleLock [] []) = Inl AlreadyPopulated"
  using resolvers_reject_populated_skeleton
    [of "TransactionSkeleton\<lparr>cellDeps := [defaultCellDeps sampleEnv None], headerDeps := [''0xb5'']\<rparr>"
        sampleEnv "getBlockHash sampleEnv" "sampleBuilder sampleLock [] []"]
  by (simp add: TransactionSkeleton_def)

text \<open>
  Claim C10. When \<open>add("input", position, ...cells)\<close> is given a cell that lacks a block
  number, it throws the missing-block-number error only after the cells have been appended
  (or, for \<open>start\<close>, prepended) to the builder's inputs: the builder it leaves behind holds
  them. A later build reads these inputs: it meets the offending cell and fails, whatever
  the environment and the delta.
\<close>

theorem add_input_throws_after_mutation:
  assumes "list_ex lacksBlockNumber cells"
  shows "add Input pos cells b =
           (Some MissingBlockNumber,
            b\<lparr>this_inputs := (if pos = Start then cells @ this_inputs b else this_inputs b @ cells)\<rparr>)
         \<and> set cells \<subseteq> set (this_inputs (snd (add Input pos cells b)))
         \<and> (\<forall>env ckbDelta. \<exists>e. buildWithChange env (snd (add Input pos cells b)) ckbDelta = Inl e)"
proof -
  let ?b = "b\<lparr>this_inputs := (if pos = Start then cells @ this_inputs b else this_inputs b @ cells)\<rparr>"
  have l: "list_ex lacksBlockNumber (this_inputs ?b)" using assms by auto
  then have a: "add Input pos cells b = (Some MissingBlockNumber, ?b)"
    by (simp add: add_def Let_def)
  have "\<exists>e. buildWithChange env ?b ckbDelta = Inl e" for env ckbDelta
  proof (cases "changeCells env ?b ckbDelta")
    case (Inl e)
    then show ?thesis by (simp add: buildWithChange_def)
  next
    case (Inr cs)
    have "list_ex lacksBlockNumber
            (inputs (TransactionSkeleton\<lparr>inputs := inputs TransactionSkeleton @ this_inputs ?b,
               outputs := outputs TransactionSkeleton @ this_outputs ?b @ cs\<rparr>))"
      using l by (simp add: TransactionSkeleton_def)
    from resolveSkeleton_lacking [OF this] show ?thesis using Inr by (simp add: buildWithChange_def)
  qed
  with a show ?thesis by auto
qed

theorem add_input_throws_after_mutation_witness:
  "list_ex lacksBlockNumber [unplacedCell] \<and>
   add Input End [unplacedCell] (sampleBuilder sampleLock [plainCell] []) =
     (Some MissingBlockNumber, sampleBuilder sampleLock [plainCell, unplacedCell] []) \<and>
   (\<exists>e. buildWithChange sampleEnv
          (snd (add Input End [unplacedCell] (sampleBuilder sampleLock [plainCell] []))) 0 = Inl e)"
proof -
  have h: "list_ex lacksBlockNumber [unplacedCell]"
    by (simp add: lacksBlockNumber_def unplacedCell_def sampleCell_def)
  note w = add_input_throws_after_mutation [OF h, of End "sampleBuilder sampleLock [plainCell] []"]
  from w have "add Input End [unplacedCell] (sampleBuilder sampleLock [plainCell] []) =
     (Some MissingBlockNumber, sampleBuilder sampleLock [plainCell, unplacedCell] [])"
    by (simp add: sampleBuilder_def)
  moreover from w have "\<exists>e. buildWithChange sampleEnv
          (snd (add Input End [unplacedCell] (sampleBuilder sampleLock [plainCell] []))) 0 = Inl e"
    by blast
  ultimately show ?thesis using h by blast
qed

end
